theory Spec2Isabelle
  imports Main "HOL-Library.List_Lexorder" "HOL-Library.AList"
begin

section \<open>Python strings\<close>

text \<open>
  A Python \<open>str\<close> is a sequence of Unicode code points, so it is modelled as a list of
  natural numbers (the code points). Comparison of two \<open>str\<close> values is the lexicographic
  order on code points, which is the order \<open>HOL-Library.List_Lexorder\<close> puts on
  \<open>nat list\<close>. A literal is written \<open>py ''abc''\<close>.
\<close>

type_synonym pystr = "nat list"

definition py :: "string \<Rightarrow> pystr" where
  "py s = map of_char s"

text \<open>\<open>sep.join(parts)\<close>\<close>

fun join :: "pystr \<Rightarrow> pystr list \<Rightarrow> pystr" where
  "join sep [] = []"
| "join sep [x] = x"
| "join sep (x # y # ys) = x @ sep @ join sep (y # ys)"

text \<open>
  \<open>str.isspace\<close> on one code point: the code points CPython's
  \<open>_PyUnicode_IsWhitespace\<close> accepts.
\<close>

definition isspace :: "nat \<Rightarrow> bool" where
  "isspace c \<longleftrightarrow>
     (9 \<le> c \<and> c \<le> 13) \<or> (28 \<le> c \<and> c \<le> 32) \<or> c = 133 \<or> c = 160 \<or> c = 5760 \<or>
     (8192 \<le> c \<and> c \<le> 8202) \<or> c = 8232 \<or> c = 8233 \<or> c = 8239 \<or> c = 8287 \<or> c = 12288"

text \<open>\<open>s.strip(chars)\<close>, with the set of characters given as a predicate.\<close>

definition lstrip_with :: "(nat \<Rightarrow> bool) \<Rightarrow> pystr \<Rightarrow> pystr" where
  "lstrip_with P s = dropWhile P s"

definition rstrip_with :: "(nat \<Rightarrow> bool) \<Rightarrow> pystr \<Rightarrow> pystr" where
  "rstrip_with P s = rev (dropWhile P (rev s))"

definition strip_with :: "(nat \<Rightarrow> bool) \<Rightarrow> pystr \<Rightarrow> pystr" where
  "strip_with P s = rstrip_with P (lstrip_with P s)"

text \<open>\<open>s.strip()\<close>: whitespace is removed at both ends.\<close>

definition strip :: "pystr \<Rightarrow> pystr" where
  "strip s = strip_with isspace s"

text \<open>\<open>s.split(sep)\<close> for a separator of one character; the result is never empty.\<close>

fun split :: "nat \<Rightarrow> pystr \<Rightarrow> pystr list" where
  "split c [] = [[]]"
| "split c (x # xs) =
     (if x = c then [] # split c xs
      else (case split c xs of [] \<Rightarrow> [[x]] | w # ws \<Rightarrow> (x # w) # ws))"

text \<open>\<open>s.endswith(suffix)\<close>\<close>

definition endswith :: "pystr \<Rightarrow> pystr \<Rightarrow> bool" where
  "endswith s suf \<longleftrightarrow> length suf \<le> length s \<and> drop (length s - length suf) s = suf"

text \<open>\<open>ex in t\<close> on two strings: \<open>ex\<close> occurs in \<open>t\<close> at some position.\<close>

fun py_in :: "pystr \<Rightarrow> pystr \<Rightarrow> bool" where
  "py_in ex [] \<longleftrightarrow> ex = []"
| "py_in ex (c # cs) \<longleftrightarrow> take (length ex) (c # cs) = ex \<or> py_in ex cs"

text \<open>\<open>str(n)\<close> for an integer, as an f-string prints it.\<close>

fun str_nat :: "nat \<Rightarrow> pystr" where
  "str_nat n = (if n < 10 then [48 + n] else str_nat (n div 10) @ [48 + n mod 10])"

declare str_nat.simps [simp del]

definition str_int :: "int \<Rightarrow> pystr" where
  "str_int i = (if i < 0 then 45 # str_nat (nat (- i)) else str_nat (nat i))"

text \<open>
  The lines a text file object yields, by iteration or by \<open>readline\<close>: each line keeps its
  terminating newline (code point 10), and the last line may lack one.
\<close>

fun iter_lines :: "pystr \<Rightarrow> pystr list" where
  "iter_lines [] = []"
| "iter_lines (x # xs) =
     (if x = 10 then [10] # iter_lines xs
      else (case iter_lines xs of [] \<Rightarrow> [[x]] | l # ls \<Rightarrow> (x # l) # ls))"

section \<open>Exceptions, files and the file system\<close>

text \<open>
  An exception is its class and the text \<open>str(e)\<close>. \<open>LibraryError\<close> stands for the
  exceptions of \<open>zipfile\<close>, \<open>tarfile\<close>, \<open>gzip\<close>, \<open>bz2\<close> and \<open>lzma\<close>.
\<close>

datatype exn_kind =
  FileNotFoundError | PermissionError | UnicodeDecodeError | EOFError | LibraryError

datatype exn = Exn exn_kind pystr

fun exn_str :: "exn \<Rightarrow> pystr" where
  "exn_str (Exn k m) = m"

text \<open>
  What \<open>open(path, "r")\<close> finds when it decodes the bytes of a file: \<open>Text s\<close> is a file
  that decodes to \<open>s\<close> (newlines already translated); \<open>Undecodable ls m\<close> is a file
  whose decoding delivers the lines \<open>ls\<close> and then raises \<open>UnicodeDecodeError\<close> with
  text \<open>m\<close>. \<open>DamagedGzip m e\<close> is a file that begins a gzip stream which is cut short
  or damaged: its first bytes, \<open>1f 8b\<close>, do not decode, so that the first read raises
  \<open>UnicodeDecodeError\<close> with text \<open>m\<close>; and \<open>tarfile.open\<close>, which tries gzip among
  its compressions, raises \<open>e\<close> on it, an \<open>EOFError\<close> or an error of \<open>zlib\<close>, which
  is no \<open>TarError\<close>.
\<close>

datatype content = Text pystr | Undecodable "pystr list" pystr | DamagedGzip pystr exn

text \<open>
  What the archive libraries find in a file. A zip container either cannot be opened by
  \<open>zipfile.ZipFile\<close> (the exception) or lists its names, each with the outcome of
  \<open>z.open(name)\<close> and \<open>f.read().decode(errors="ignore")\<close>: an exception or the decoded
  text. A tar container either fails in \<open>getmembers\<close> or lists its members: the name,
  \<open>member.isfile()\<close>, and the outcome of \<open>extractfile\<close> and \<open>read\<close>: an exception,
  \<open>None\<close>, or the decoded text.
\<close>

datatype tar_member = TarMember (tm_name: pystr) (tm_isfile: bool) (tm_data: "exn + pystr option")

datatype container =
    Plain
  | Zip "exn + (pystr \<times> (exn + pystr)) list"
  | Tar "exn + tar_member list"

text \<open>
  A file: \<open>fsize\<close> is \<open>os.path.getsize\<close> in bytes; \<open>faccess\<close> is the exception that
  opening the file raises, if any; \<open>fstream\<close> is what \<open>gzip.open\<close>, \<open>bz2.open\<close> or
  \<open>lzma.open\<close> (the one chosen by the suffix of the name) and \<open>read\<close> give in text
  mode with \<open>errors="ignore"\<close>.
\<close>

record disk_file =
  fsize :: nat
  faccess :: "exn option"
  fcontent :: content
  fcontainer :: container
  fstream :: "exn + pystr"

text \<open>
  A path names a file of the tree that is walked, or a file made by
  \<open>tempfile.NamedTemporaryFile\<close>, whose name is fresh. The world is the named files and
  the temporary files that exist, in the order of their creation.
\<close>

datatype path = Named pystr | Temp nat

record world =
  fs :: "pystr \<rightharpoonup> disk_file"
  temps :: "disk_file list"

definition lookup :: "world \<Rightarrow> path \<Rightarrow> disk_file option" where
  "lookup w p =
     (case p of
        Named n \<Rightarrow> fs w n
      | Temp i \<Rightarrow> (if i < length (temps w) then Some (temps w ! i) else None))"

text \<open>
  The name of a path as text. The name of a temporary file is chosen at random by the
  library; the text given here for it stands for that name.
\<close>

definition path_name :: "path \<Rightarrow> pystr" where
  "path_name p = (case p of Named n \<Rightarrow> n | Temp i \<Rightarrow> py ''/tmp/tmp'' @ str_nat i)"

text \<open>
  The exception of \<open>open\<close> on a name that does not exist. The text is CPython's for a
  name that \<open>repr\<close> prints unchanged between single quotes.
\<close>

definition no_such_file :: "path \<Rightarrow> exn" where
  "no_such_file p =
     Exn FileNotFoundError
       (py ''[Errno 2] No such file or directory: '' @ [39] @ path_name p @ [39])"

text \<open>
  An open text file: the lines still to be read, and the exception that reading past them
  raises (\<open>None\<close>: end of file).
\<close>

datatype file_obj = FileObj "pystr list" "exn option"

definition open_r :: "world \<Rightarrow> path \<Rightarrow> exn + file_obj" where
  "open_r w p =
     (case lookup w p of
        None \<Rightarrow> Inl (no_such_file p)
      | Some f \<Rightarrow>
          (case faccess f of
             Some e \<Rightarrow> Inl e
           | None \<Rightarrow>
               (case fcontent f of
                  Text s \<Rightarrow> Inr (FileObj (iter_lines s) None)
                | Undecodable ls m \<Rightarrow> Inr (FileObj ls (Some (Exn UnicodeDecodeError m)))
                | DamagedGzip m e \<Rightarrow> Inr (FileObj [] (Some (Exn UnicodeDecodeError m))))))"

text \<open>\<open>file.read()\<close>\<close>

fun read :: "file_obj \<Rightarrow> exn + pystr" where
  "read (FileObj ls None) = Inr (concat ls)"
| "read (FileObj ls (Some e)) = Inl e"

text \<open>\<open>file.readline()\<close>: the line (empty at the end of the file) and the file after it.\<close>

fun readline :: "file_obj \<Rightarrow> exn + (pystr \<times> file_obj)" where
  "readline (FileObj [] None) = Inr ([], FileObj [] None)"
| "readline (FileObj [] (Some e)) = Inl e"
| "readline (FileObj (l # ls) e) = Inr (l, FileObj ls e)"

section \<open>Configuration\<close>

text \<open>
  The three module constants. \<open>LARGE_SIZE_FILE\<close> is taken as an integer number of
  megabytes. \<open>MAX_LINES_FOR_LARGE_FILE\<close> is an integer, \<open>None\<close>, or another value
  (one that is neither an integer nor \<open>None\<close> and is not equal to 0).
\<close>

datatype max_lines = Lines int | Unbounded | Unrecognised

record config =
  READ_COMPRESSED_FILES :: bool
  LARGE_SIZE_FILE :: int
  MAX_LINES_FOR_LARGE_FILE :: max_lines

definition default_config :: config where
  "default_config =
     \<lparr>READ_COMPRESSED_FILES = True, LARGE_SIZE_FILE = 10, MAX_LINES_FOR_LARGE_FILE = Lines 1000\<rparr>"

section \<open>The file reader\<close>

definition file_is_large :: "world \<Rightarrow> path \<Rightarrow> int \<Rightarrow> bool" where
  "file_is_large w file_path threshold_mb =
     (case lookup w file_path of
        Some f \<Rightarrow> (if int (fsize f) > threshold_mb * 1024 * 1024 then True else False)
      | None \<Rightarrow> False)"

text \<open>The loop of \<open>read_line_by_line\<close>: every line of the file is stripped and appended.\<close>

definition remaining :: "file_obj \<Rightarrow> nat" where
  "remaining f = (case f of FileObj ls e \<Rightarrow> length ls)"

function for_line_in_file :: "file_obj \<Rightarrow> pystr list \<Rightarrow> exn + pystr list" where
  "for_line_in_file (FileObj [] None) lines = Inr lines"
| "for_line_in_file (FileObj [] (Some e)) lines = Inl e"
| "for_line_in_file (FileObj (line # ls) e) lines =
     for_line_in_file (FileObj ls e) (lines @ [strip line])"
  by pat_completeness auto
termination
  by (relation "measure (\<lambda>(f, lines). remaining f)") (auto simp: remaining_def)

definition read_line_by_line :: "world \<Rightarrow> path \<Rightarrow> exn + pystr" where
  "read_line_by_line w file_path =
     (case open_r w file_path of
        Inl e \<Rightarrow> Inl e
      | Inr file \<Rightarrow>
          (case for_line_in_file file [] of
             Inl e \<Rightarrow> Inl e
           | Inr lines \<Rightarrow> Inr (join [10] lines)))"

definition read_all :: "world \<Rightarrow> path \<Rightarrow> exn + pystr" where
  "read_all w file_path =
     (case open_r w file_path of
        Inl e \<Rightarrow> Inl e
      | Inr file \<Rightarrow> read file)"

text \<open>The loop of \<open>read_n_lines_from_file\<close>: at most \<open>n\<close> calls of \<open>readline\<close>.\<close>

fun for_range :: "nat \<Rightarrow> file_obj \<Rightarrow> pystr list \<Rightarrow> exn + pystr list" where
  "for_range 0 file lines = Inr lines"
| "for_range (Suc k) file lines =
     (case readline file of
        Inl e \<Rightarrow> Inl e
      | Inr (line, file') \<Rightarrow>
          (if line = [] then Inr lines else for_range k file' (lines @ [strip line])))"

definition read_n_lines_from_file :: "world \<Rightarrow> path \<Rightarrow> int \<Rightarrow> exn + pystr" where
  "read_n_lines_from_file w file_path n =
     (case open_r w file_path of
        Inl e \<Rightarrow> Inl e
      | Inr file \<Rightarrow>
          (case for_range (nat n) file [] of
             Inl e \<Rightarrow> Inl e
           | Inr lines \<Rightarrow>
               Inr (join [10] lines @ py ''\<newline>...\<newline>There are only '' @ str_int n
                    @ py '' lines of the file.'')))"

definition NOT_A_TEXT_FILE :: pystr where
  "NOT_A_TEXT_FILE = py ''Not a text file''"

text \<open>
  \<open>read_file\<close>. The branches for a large file run outside the \<open>try\<close> block; only the
  two calls at the end are inside it, and \<open>except UnicodeDecodeError\<close> catches that class
  alone.
\<close>

definition read_file :: "config \<Rightarrow> world \<Rightarrow> path \<Rightarrow> bool \<Rightarrow> exn + pystr" where
  "read_file cfg w file_path line_by_line =
     (if file_is_large w file_path (LARGE_SIZE_FILE cfg) then
        (case MAX_LINES_FOR_LARGE_FILE cfg of
           Lines n \<Rightarrow>
             (if n = 0 then Inr (py ''The file could not be read.\<newline>'')
              else if n > 0 then read_n_lines_from_file w file_path n
              else Inr (py ''The file was skipped. The file was larger than ''
                        @ str_int (LARGE_SIZE_FILE cfg)
                        @ py ''MB and it was not specified how many lines to read from it.''))
         | Unbounded \<Rightarrow> read_line_by_line w file_path
         | Unrecognised \<Rightarrow>
             Inr (py ''The file was skipped. The file was larger than ''
                  @ str_int (LARGE_SIZE_FILE cfg)
                  @ py ''MB and it was not specified how many lines to read from it.''))
      else
        (case (if line_by_line then read_line_by_line w file_path else read_all w file_path) of
           Inl (Exn UnicodeDecodeError m) \<Rightarrow> Inr NOT_A_TEXT_FILE
         | Inl e \<Rightarrow> Inl e
         | Inr s \<Rightarrow> Inr s))"

section \<open>The tree renderer\<close>

text \<open>
  The path tree is a dictionary from a segment to the dictionary of its children. A Python
  dictionary keeps its keys in the order of their insertion, so it is an association list
  with distinct keys.
\<close>

datatype tree = Node "(pystr \<times> tree) list"

fun children :: "tree \<Rightarrow> (pystr \<times> tree) list" where
  "children (Node d) = d"

text \<open>
  The inner loop of the construction, \<open>current = current.setdefault(part, {})\<close> for each
  part in turn: a part that is absent is added at the end with an empty dictionary, and
  the rest of the parts goes into the dictionary of that part.
\<close>

fun setdefault_parts :: "pystr list \<Rightarrow> tree \<Rightarrow> tree" where
  "setdefault_parts [] current = current"
| "setdefault_parts (part # parts) (Node d) =
     (case map_of d part of
        None \<Rightarrow> Node (d @ [(part, setdefault_parts parts (Node []))])
      | Some sub \<Rightarrow> Node (AList.update part (setdefault_parts parts sub) d))"

definition slash :: nat where
  "slash = 47"

definition path_parts :: "pystr \<Rightarrow> pystr list" where
  "path_parts path = split slash (strip_with (\<lambda>c. c = slash) path)"

definition build_tree :: "pystr list \<Rightarrow> tree" where
  "build_tree paths = fold (\<lambda>path tree. setdefault_parts (path_parts path) tree) paths (Node [])"

record counters =
  dirs_count :: nat
  files_count :: nat

text \<open>The connectors are box-drawing characters, given by their code points.\<close>

definition corner :: pystr where
  "corner = [9492, 9472, 9472, 32]"

definition tee :: pystr where
  "tee = [9500, 9472, 9472, 32]"

definition blank :: pystr where
  "blank = py ''    ''"

definition bar :: pystr where
  "bar = [9474, 32, 32, 32]"

lemma size_list_insort_key:
  "size_list g (insort_key k x xs) = Suc (g x + size_list g xs)"
  by (induction xs) auto

lemma size_list_sort_key: "size_list g (sort_key k xs) = size_list g xs"
  by (induction xs) (auto simp: size_list_insort_key)

text \<open>
  \<open>_print_tree\<close>, with the two counters it shares with \<open>paths_as_tree\<close> passed in and
  returned. \<open>for_items\<close> is its loop over \<open>enumerate(items)\<close>: \<open>i\<close> is the index and
  \<open>n\<close> is \<open>len(items)\<close>.
\<close>

function print_tree :: "tree \<Rightarrow> pystr \<Rightarrow> counters \<Rightarrow> pystr list \<times> counters"
  and for_items ::
    "(pystr \<times> tree) list \<Rightarrow> nat \<Rightarrow> nat \<Rightarrow> pystr \<Rightarrow> pystr list \<Rightarrow> counters \<Rightarrow> pystr list \<times> counters"
where
  "print_tree (Node d) prefix c =
     (let items = sort_key fst d in for_items items 0 (length items) prefix [] c)"
| "for_items [] i n prefix lines c = (lines, c)"
| "for_items ((name, subtree) # rest) i n prefix lines c =
     (let connector = (if int i = int n - 1 then corner else tee);
          is_dir = (children subtree \<noteq> []);
          lines1 = (if is_dir then lines @ [prefix @ connector @ name @ [slash]]
                    else lines @ [prefix @ connector @ name]);
          c1 = (if is_dir then c\<lparr>dirs_count := dirs_count c + 1\<rparr>
                else c\<lparr>files_count := files_count c + 1\<rparr>);
          extension = (if int i = int n - 1 then blank else bar)
      in case print_tree subtree (prefix @ extension) c1 of
           (sub, c2) \<Rightarrow> for_items rest (i + 1) n prefix (lines1 @ sub) c2)"
  by pat_completeness auto
termination
  by (relation "measure (\<lambda>x. case x of
         Inl (t, prefix, c) \<Rightarrow> size t
       | Inr (items, i, n, prefix, lines, c) \<Rightarrow> size_list (size_prod (\<lambda>k. 0) size) items)")
     (auto simp: size_list_sort_key)

definition paths_as_tree :: "pystr list \<Rightarrow> pystr" where
  "paths_as_tree paths =
     (let tree = build_tree paths in
      case print_tree tree [] \<lparr>dirs_count = 0, files_count = 0\<rparr> of
        (body, c) \<Rightarrow>
          join [10]
            ([py ''. Files that were selected:\<newline>|''] @ body @
             [py ''\<newline>'' @ str_nat (dirs_count c) @ py '' directories, ''
              @ str_nat (files_count c) @ py '' files'']))"

section \<open>The ignore filter\<close>

definition ignores_apply :: "pystr list \<Rightarrow> pystr list \<Rightarrow> pystr list" where
  "ignores_apply ignores targets = filter (\<lambda>t. \<not> list_ex (\<lambda>ex. py_in ex t) ignores) targets"

section \<open>The archive inspector\<close>

text \<open>
  \<open>zipfile.is_zipfile\<close> answers \<open>False\<close> for a file it cannot open.
  \<open>tarfile.is_tarfile\<close> catches \<open>TarError\<close> alone: the exception of \<open>open\<close> on a
  file that is missing or closed to the reader passes through it, and so does the
  exception that a damaged gzip stream raises when \<open>tarfile.open\<close> reads it.
\<close>

definition is_zipfile :: "world \<Rightarrow> pystr \<Rightarrow> bool" where
  "is_zipfile w path =
     (case fs w path of
        None \<Rightarrow> False
      | Some f \<Rightarrow>
          (case faccess f of
             Some e \<Rightarrow> False
           | None \<Rightarrow> (case fcontainer f of Zip z \<Rightarrow> True | _ \<Rightarrow> False)))"

definition is_tarfile :: "world \<Rightarrow> pystr \<Rightarrow> exn + bool" where
  "is_tarfile w path =
     (case fs w path of
        None \<Rightarrow> Inl (no_such_file (Named path))
      | Some f \<Rightarrow>
          (case faccess f of
             Some e \<Rightarrow> Inl e
           | None \<Rightarrow>
               (case fcontent f of
                  DamagedGzip m e \<Rightarrow> Inl e
                | _ \<Rightarrow> Inr (case fcontainer f of Tar t \<Rightarrow> True | _ \<Rightarrow> False))))"

text \<open>The result is the value of the key \<open>"type"\<close>, or \<open>None\<close>.\<close>

definition inspect_archive :: "world \<Rightarrow> pystr \<Rightarrow> exn + pystr option" where
  "inspect_archive w path =
     (if is_zipfile w path then Inr (Some (py ''zip''))
      else
        (case is_tarfile w path of
           Inl e \<Rightarrow> Inl e
         | Inr is_tar \<Rightarrow>
             (if is_tar then Inr (Some (py ''tar''))
              else if endswith path (py ''.gz'') then Inr (Some (py ''gz''))
              else if endswith path (py ''.bz2'') then Inr (Some (py ''bz2''))
              else if endswith path (py ''.xz'') then Inr (Some (py ''xz''))
              else Inr None)))"

section \<open>The archive reader\<close>

text \<open>
  The three ways into an archive. Each fails with the exception of \<open>open\<close> when the file
  is missing or closed to the reader, and with an exception of the library when the file
  is not of the kind asked for.
\<close>

definition ZipFile :: "world \<Rightarrow> pystr \<Rightarrow> exn + (pystr \<times> (exn + pystr)) list" where
  "ZipFile w path =
     (case fs w path of
        None \<Rightarrow> Inl (no_such_file (Named path))
      | Some f \<Rightarrow>
          (case faccess f of
             Some e \<Rightarrow> Inl e
           | None \<Rightarrow>
               (case fcontainer f of
                  Zip z \<Rightarrow> z
                | _ \<Rightarrow> Inl (Exn LibraryError (py ''File is not a zip file'')))))"

definition getmembers :: "world \<Rightarrow> pystr \<Rightarrow> exn + tar_member list" where
  "getmembers w path =
     (case fs w path of
        None \<Rightarrow> Inl (no_such_file (Named path))
      | Some f \<Rightarrow>
          (case faccess f of
             Some e \<Rightarrow> Inl e
           | None \<Rightarrow>
               (case fcontainer f of
                  Tar t \<Rightarrow> t
                | _ \<Rightarrow> Inl (Exn LibraryError (py ''file could not be opened successfully'')))))"

definition opener_read :: "world \<Rightarrow> pystr \<Rightarrow> exn + pystr" where
  "opener_read w path =
     (case fs w path of
        None \<Rightarrow> Inl (no_such_file (Named path))
      | Some f \<Rightarrow> (case faccess f of Some e \<Rightarrow> Inl e | None \<Rightarrow> fstream f))"

text \<open>
  The temporary file. \<open>tmp.write(content)\<close> encodes the text, and \<open>read_file\<close> later
  decodes it and translates the newlines; the encoding is taken to be UTF-8 and the line
  separator of the system to be the newline. \<open>delete=False\<close>: leaving the \<open>with\<close>
  block closes the file and keeps it.
\<close>

definition utf8_len :: "nat \<Rightarrow> nat" where
  "utf8_len c = (if c < 128 then 1 else if c < 2048 then 2 else if c < 65536 then 3 else 4)"

fun universal_newlines :: "pystr \<Rightarrow> pystr" where
  "universal_newlines [] = []"
| "universal_newlines (x # xs) =
     (if x = 13 then
        (case xs of
           [] \<Rightarrow> [10]
         | y # ys \<Rightarrow> (if y = 10 then 10 # universal_newlines ys else 10 # universal_newlines xs))
      else x # universal_newlines xs)"

definition temp_file :: "pystr \<Rightarrow> disk_file" where
  "temp_file content =
     \<lparr>fsize = sum_list (map utf8_len content), faccess = None,
      fcontent = Text (universal_newlines content), fcontainer = Plain,
      fstream = Inl (Exn LibraryError [])\<rparr>"

definition NamedTemporaryFile_write :: "world \<Rightarrow> pystr \<Rightarrow> path \<times> world" where
  "NamedTemporaryFile_write w content =
     (Temp (length (temps w)), w\<lparr>temps := temps w @ [temp_file content]\<rparr>)"

definition arrow :: pystr where
  "arrow = [32, 8594, 32]"

definition section_of :: "pystr \<Rightarrow> pystr \<Rightarrow> pystr" where
  "section_of label body = py ''\<newline>## '' @ label @ py ''\<newline>'' @ body @ py ''\<newline>''"

text \<open>
  The loop over \<open>z.namelist()\<close>. The body of the loop is inside \<open>try\<close>, and
  \<open>except Exception\<close> turns every exception of the entry into the marker.
\<close>

fun for_name_in_namelist ::
  "config \<Rightarrow> pystr \<Rightarrow> (pystr \<times> (exn + pystr)) list \<Rightarrow> pystr list \<Rightarrow> world \<Rightarrow> pystr list \<times> world"
where
  "for_name_in_namelist cfg path [] text_parts w = (text_parts, w)"
| "for_name_in_namelist cfg path ((name, entry) # rest) text_parts w =
     (case entry of
        Inl e \<Rightarrow>
          for_name_in_namelist cfg path rest
            (text_parts @ [section_of (path @ arrow @ name) (py ''[Unreadable file]'')]) w
      | Inr content \<Rightarrow>
          (case NamedTemporaryFile_write w content of
             (tmp, w1) \<Rightarrow>
               (case read_file cfg w1 tmp False of
                  Inl e \<Rightarrow>
                    for_name_in_namelist cfg path rest
                      (text_parts @ [section_of (path @ arrow @ name) (py ''[Unreadable file]'')]) w1
                | Inr s \<Rightarrow>
                    for_name_in_namelist cfg path rest
                      (text_parts @ [section_of (path @ arrow @ name) s]) w1)))"

text \<open>
  The loop over \<open>tfile.getmembers()\<close>. Nothing in the body catches an exception: the
  loop ends at the first one, with the parts gathered so far.
\<close>

fun for_member_in_getmembers ::
  "config \<Rightarrow> pystr \<Rightarrow> tar_member list \<Rightarrow> pystr list \<Rightarrow> world \<Rightarrow> exn option \<times> pystr list \<times> world"
where
  "for_member_in_getmembers cfg path [] text_parts w = (None, text_parts, w)"
| "for_member_in_getmembers cfg path (member # rest) text_parts w =
     (if tm_isfile member then
        (case tm_data member of
           Inl e \<Rightarrow> (Some e, text_parts, w)
         | Inr None \<Rightarrow> for_member_in_getmembers cfg path rest text_parts w
         | Inr (Some content) \<Rightarrow>
             (case NamedTemporaryFile_write w content of
                (tmp, w1) \<Rightarrow>
                  (case read_file cfg w1 tmp False of
                     Inl e \<Rightarrow> (Some e, text_parts, w1)
                   | Inr s \<Rightarrow>
                       for_member_in_getmembers cfg path rest
                         (text_parts @ [section_of (path @ arrow @ tm_name member) s]) w1)))
      else for_member_in_getmembers cfg path rest text_parts w)"

text \<open>
  The body of the outer \<open>try\<close>: the exception that leaves it, if any, the parts and the
  world at that moment.
\<close>

definition try_body ::
  "config \<Rightarrow> world \<Rightarrow> pystr \<Rightarrow> pystr \<Rightarrow> pystr list \<Rightarrow> exn option \<times> pystr list \<times> world" where
  "try_body cfg w path t text_parts =
     (if t = py ''zip'' then
        (case ZipFile w path of
           Inl e \<Rightarrow> (Some e, text_parts, w)
         | Inr namelist \<Rightarrow>
             (case for_name_in_namelist cfg path namelist text_parts w of
                (text_parts', w') \<Rightarrow> (None, text_parts', w')))
      else if t = py ''tar'' then
        (case getmembers w path of
           Inl e \<Rightarrow> (Some e, text_parts, w)
         | Inr members \<Rightarrow> for_member_in_getmembers cfg path members text_parts w)
      else if t \<in> set [py ''gz'', py ''bz2'', py ''xz''] then
        (case opener_read w path of
           Inl e \<Rightarrow> (Some e, text_parts, w)
         | Inr content \<Rightarrow>
             (case NamedTemporaryFile_write w content of
                (tmp, w1) \<Rightarrow>
                  (case read_file cfg w1 tmp False of
                     Inl e \<Rightarrow> (Some e, text_parts, w1)
                   | Inr s \<Rightarrow>
                       (None, text_parts @ [section_of (path @ py '' (decompressed)'') s], w1))))
      else (None, text_parts, w))"

definition read_archive :: "config \<Rightarrow> world \<Rightarrow> pystr \<Rightarrow> exn + pystr \<times> world" where
  "read_archive cfg w path =
     (case inspect_archive w path of
        Inl e \<Rightarrow> Inl e
      | Inr None \<Rightarrow> Inr (py ''## Unsupported archive format\<newline>'', w)
      | Inr (Some t) \<Rightarrow>
          (case try_body cfg w path t
                  [py ''## Archive content of '' @ path @ py '' ('' @ t @ py '')''] of
             (None, text_parts, w') \<Rightarrow> Inr (join [10] text_parts, w')
           | (Some e, text_parts, w') \<Rightarrow>
               Inr (join [10] (text_parts @ [py ''[Error reading archive: '' @ exn_str e @ py '']'']),
                    w')))"

section \<open>The document assembler\<close>

definition fenced :: "pystr \<Rightarrow> pystr" where
  "fenced s = py ''\<newline>```\<newline>'' @ s @ py ''\<newline>```\<newline>''"

text \<open>The body of the loop of \<open>make_text_from_files\<close> up to the value of \<open>file_content\<close>.\<close>

definition file_content_of :: "config \<Rightarrow> world \<Rightarrow> pystr \<Rightarrow> exn + pystr \<times> world" where
  "file_content_of cfg w file =
     (case read_file cfg w (Named file) False of
        Inl e \<Rightarrow> Inl e
      | Inr content_raw \<Rightarrow>
          (if content_raw = py ''Not a text file'' then
             (case inspect_archive w file of
                Inl e \<Rightarrow> Inl e
              | Inr (Some archive_info) \<Rightarrow>
                  (if READ_COMPRESSED_FILES cfg then
                     (case read_archive cfg w file of
                        Inl e \<Rightarrow> Inl e
                      | Inr (s, w') \<Rightarrow> Inr (fenced s, w'))
                   else Inr (py ''`Archive skipped`\<newline>'', w))
              | Inr None \<Rightarrow> Inr (py ''\<newline>```\<newline>Not a text file\<newline>```\<newline>'', w))
           else Inr (fenced content_raw, w)))"

fun for_file_in_files :: "config \<Rightarrow> pystr list \<Rightarrow> pystr \<Rightarrow> world \<Rightarrow> exn + pystr \<times> world" where
  "for_file_in_files cfg [] text w = Inr (text, w)"
| "for_file_in_files cfg (file # files) text w =
     (case file_content_of cfg w file of
        Inl e \<Rightarrow> Inl e
      | Inr (file_content, w') \<Rightarrow>
          for_file_in_files cfg files
            (text @ file @ py ''\<newline>'' @ file_content @ py ''---\<newline>\<newline>'') w')"

definition make_text_from_files ::
  "config \<Rightarrow> world \<Rightarrow> pystr list \<Rightarrow> pystr option \<Rightarrow> exn + pystr \<times> world" where
  "make_text_from_files cfg w files description =
     (let tree = paths_as_tree files;
          text = py ''Project structure\<newline>\<newline>'' @ tree @ py ''\<newline>\<newline>---\<newline>\<newline>''
      in case for_file_in_files cfg files text w of
           Inl e \<Rightarrow> Inl e
         | Inr (text', w') \<Rightarrow>
             (case description of
                None \<Rightarrow> Inr (text', w')
              | Some d \<Rightarrow>
                  (if d \<noteq> [] then
                     Inr (text' @ py ''Description\<newline>\<newline>'' @ d @ py ''\<newline>'', w')
                   else Inr (text', w'))))"

section \<open>Example files\<close>

text \<open>A file that is no container and that no decompressor accepts.\<close>

definition plain_file :: "nat \<Rightarrow> content \<Rightarrow> disk_file" where
  "plain_file n c =
     \<lparr>fsize = n, faccess = None, fcontent = c, fcontainer = Plain,
      fstream = Inl (Exn LibraryError (py ''Not a gzipped file''))\<rparr>"

text \<open>Two files of the letter x: one of exactly 10 MB, one a byte longer.\<close>

definition world_threshold :: world where
  "world_threshold =
     \<lparr>fs = [py ''exact.txt'' \<mapsto> plain_file 10485760 (Text (replicate 10485760 120)),
            py ''over.txt'' \<mapsto> plain_file 10485761 (Text (replicate 10485761 120))],
      temps = []\<rparr>"

text \<open>
  A text file of four lines and 13 bytes, with three policies for large files under a
  threshold of 0 MB, so that the file is large.
\<close>

definition four_lines :: pystr where
  "four_lines = py ''  a  \<newline> b\<newline>c\<newline>d\<newline>''"

definition world_lines :: world where
  "world_lines = \<lparr>fs = [py ''log.txt'' \<mapsto> plain_file 13 (Text four_lines)], temps = []\<rparr>"

definition config_of :: "max_lines \<Rightarrow> config" where
  "config_of m = \<lparr>READ_COMPRESSED_FILES = True, LARGE_SIZE_FILE = 0, MAX_LINES_FOR_LARGE_FILE = m\<rparr>"

text \<open>A file of 11 MB whose first byte is not valid UTF-8.\<close>

definition world_binary :: world where
  "world_binary =
     \<lparr>fs = [py ''big.bin'' \<mapsto> plain_file 11534336 (Undecodable [] (py ''invalid start byte''))],
      temps = []\<rparr>"

text \<open>
  The line mode as the specification words it: trailing whitespace is stripped from each
  line, leading whitespace is kept, and the lines are joined with newlines.
\<close>

definition spec_line_mode :: "pystr \<Rightarrow> pystr" where
  "spec_line_mode s = join [10] (map (rstrip_with isspace) (iter_lines s))"

text \<open>A small text file whose first line is indented and whose second line has trailing blanks.\<close>

definition world_indent :: world where
  "world_indent =
     \<lparr>fs = [py ''a.txt'' \<mapsto> plain_file 8 (Text (py ''  x\<newline>y  \<newline>''))], temps = []\<rparr>"

section \<open>The tree renderer as specified\<close>

text \<open>
  The rendering in the words of the specification: depth first, the children of a level in
  the lexicographic order of their names; the last child of a level has the corner
  connector and blank padding below it, the others the tee connector and bar padding; a
  segment with at least one child is a directory and is shown with a trailing separator.
\<close>

function spec_tree :: "tree \<Rightarrow> pystr \<Rightarrow> pystr list"
  and spec_level :: "(pystr \<times> tree) list \<Rightarrow> pystr \<Rightarrow> pystr list"
where
  "spec_tree (Node d) prefix = spec_level (sort_key fst d) prefix"
| "spec_level [] prefix = []"
| "spec_level ((name, sub) # rest) prefix =
     (prefix @ (if rest = [] then corner else tee) @ name
        @ (if children sub = [] then [] else [slash]))
     # spec_tree sub (prefix @ (if rest = [] then blank else bar))
     @ spec_level rest prefix"
  by pat_completeness auto
termination
  by (relation "measure (\<lambda>x. case x of
         Inl (t, prefix) \<Rightarrow> size t
       | Inr (items, prefix) \<Rightarrow> size_list (size_prod (\<lambda>k. 0) size) items)")
     (auto simp: size_list_sort_key)

text \<open>
  The number of directories, the segments with at least one child, and the number of
  files, the segments with none.
\<close>

fun spec_dirs :: "tree \<Rightarrow> nat" where
  "spec_dirs (Node d) = (\<Sum>(name, sub) \<leftarrow> d. (if children sub = [] then 0 else 1) + spec_dirs sub)"

fun spec_files :: "tree \<Rightarrow> nat" where
  "spec_files (Node d) = (\<Sum>(name, sub) \<leftarrow> d. (if children sub = [] then 1 else 0) + spec_files sub)"

text \<open>
  The node reached from the root along a list of segments, and whether there is one;
  a dictionary whose keys are distinct at every level.
\<close>

fun descend :: "tree \<Rightarrow> pystr list \<Rightarrow> tree option" where
  "descend t [] = Some t"
| "descend (Node d) (k # ks) = (case map_of d k of None \<Rightarrow> None | Some sub \<Rightarrow> descend sub ks)"

fun in_tree :: "tree \<Rightarrow> pystr list \<Rightarrow> bool" where
  "in_tree t [] \<longleftrightarrow> True"
| "in_tree (Node d) (k # ks) \<longleftrightarrow> (case map_of d k of None \<Rightarrow> False | Some sub \<Rightarrow> in_tree sub ks)"

fun distinct_keys :: "tree \<Rightarrow> bool" where
  "distinct_keys (Node d) \<longleftrightarrow> distinct (map fst d) \<and> (\<forall>(name, sub) \<in> set d. distinct_keys sub)"

text \<open>The three paths of the example.\<close>

definition example_paths :: "pystr list" where
  "example_paths = [py ''a/b.txt'', py ''a/c.txt'', py ''d.txt'']"

section \<open>Example archives\<close>

text \<open>A file whose bytes do not decode as text, seen by the archive libraries as a container.\<close>

definition binary_file :: "container \<Rightarrow> disk_file" where
  "binary_file c =
     \<lparr>fsize = 2048, faccess = None, fcontent = Undecodable [] (py ''invalid start byte''),
      fcontainer = c, fstream = Inl (Exn LibraryError (py ''Not a gzipped file''))\<rparr>"

text \<open>
  A tar archive and a zip archive with the same two members: the first cannot be read,
  the second holds the text \<open>hello\<close> and a newline.
\<close>

definition world_tar :: world where
  "world_tar =
     \<lparr>fs = [py ''a.tar'' \<mapsto> binary_file (Tar (Inr
              [TarMember (py ''m1'') True (Inl (Exn LibraryError (py ''unexpected end of data''))),
               TarMember (py ''m2'') True (Inr (Some (py ''hello\<newline>'')))]))],
      temps = []\<rparr>"

definition world_zip :: world where
  "world_zip =
     \<lparr>fs = [py ''a.zip'' \<mapsto> binary_file (Zip (Inr
              [(py ''m1'', Inl (Exn LibraryError (py ''Bad CRC-32''))),
               (py ''m2'', Inr (py ''hello\<newline>''))]))],
      temps = []\<rparr>"

text \<open>
  A zip file with a valid signature that \<open>zipfile.ZipFile\<close> cannot open, beside a text
  file.
\<close>

definition world_corrupt :: world where
  "world_corrupt =
     \<lparr>fs = [py ''bad.zip'' \<mapsto> binary_file (Zip (Inl (Exn LibraryError (py ''Bad magic number'')))),
            py ''b.txt'' \<mapsto> plain_file 3 (Text (py ''hi\<newline>''))],
      temps = []\<rparr>"

text \<open>
  Two text files whose whole content is the sentinel: the name of the second ends with
  the suffix \<open>.gz\<close>.
\<close>

definition world_sentinel :: world where
  "world_sentinel =
     \<lparr>fs = [py ''note.txt'' \<mapsto> plain_file 15 (Text (py ''Not a text file'')),
            py ''note.gz'' \<mapsto> plain_file 15 (Text (py ''Not a text file''))],
      temps = []\<rparr>"

text \<open>
  A gzip file of 14 bytes, cut after its header, beside a text file. Its name ends with
  the suffix \<open>.gz\<close>.
\<close>

definition world_truncated :: world where
  "world_truncated =
     \<lparr>fs = [py ''trunc.gz'' \<mapsto>
              \<lparr>fsize = 14, faccess = None,
               fcontent = DamagedGzip (py ''invalid start byte'')
                 (Exn EOFError
                    (py ''Compressed file ended before the end-of-stream marker was reached'')),
               fcontainer = Plain,
               fstream = Inl (Exn EOFError
                    (py ''Compressed file ended before the end-of-stream marker was reached''))\<rparr>,
            py ''b.txt'' \<mapsto> plain_file 3 (Text (py ''hi\<newline>''))],
      temps = []\<rparr>"

section \<open>The archive reader as specified\<close>

text \<open>
  The exception, if any, that opening an archive of type \<open>t\<close> raises before any entry is
  read: the top-level extraction error.
\<close>

definition open_error :: "world \<Rightarrow> pystr \<Rightarrow> pystr \<Rightarrow> exn option" where
  "open_error w path t =
     (if t = py ''zip'' then (case ZipFile w path of Inl e \<Rightarrow> Some e | Inr z \<Rightarrow> None)
      else if t = py ''tar'' then (case getmembers w path of Inl e \<Rightarrow> Some e | Inr m \<Rightarrow> None)
      else if t \<in> set [py ''gz'', py ''bz2'', py ''xz''] then
        (case opener_read w path of Inl e \<Rightarrow> Some e | Inr c \<Rightarrow> None)
      else None)"

text \<open>
  The texts written to temporary files: every entry of a zip archive that can be read;
  the regular members of a tar archive up to the first that cannot be read; the payload of
  a compressed stream.
\<close>

fun zip_written :: "(pystr \<times> (exn + pystr)) list \<Rightarrow> pystr list" where
  "zip_written [] = []"
| "zip_written ((name, Inl e) # rest) = zip_written rest"
| "zip_written ((name, Inr content) # rest) = content # zip_written rest"

fun tar_written :: "tar_member list \<Rightarrow> pystr list" where
  "tar_written [] = []"
| "tar_written (member # rest) =
     (if tm_isfile member then
        (case tm_data member of
           Inl e \<Rightarrow> []
         | Inr None \<Rightarrow> tar_written rest
         | Inr (Some content) \<Rightarrow> content # tar_written rest)
      else tar_written rest)"

definition written :: "world \<Rightarrow> pystr \<Rightarrow> pystr list" where
  "written w path =
     (case inspect_archive w path of
        Inr (Some t) \<Rightarrow>
          (if t = py ''zip'' then
             (case ZipFile w path of Inl e \<Rightarrow> [] | Inr namelist \<Rightarrow> zip_written namelist)
           else if t = py ''tar'' then
             (case getmembers w path of Inl e \<Rightarrow> [] | Inr members \<Rightarrow> tar_written members)
           else if t \<in> set [py ''gz'', py ''bz2'', py ''xz''] then
             (case opener_read w path of Inl e \<Rightarrow> [] | Inr content \<Rightarrow> [content])
           else [])
      | _ \<Rightarrow> [])"

section \<open>Properties of the file reader\<close>

lemmas eval_defs = lookup_def file_is_large_def plain_file_def py_def config_of_def default_config_def
lemmas strip_defs = strip_def strip_with_def lstrip_with_def rstrip_with_def isspace_def

lemma iter_lines_nonempty: "[] \<notin> set (iter_lines s)"
  by (induction s) (auto split: list.splits)

lemma concat_iter_lines: "concat (iter_lines s) = s"
  by (induction s) (auto split: list.splits)

lemma for_line_in_file_text: "for_line_in_file (FileObj ls None) acc = Inr (acc @ map strip ls)"
  by (induction ls arbitrary: acc) auto

lemma for_line_in_file_raises: "for_line_in_file (FileObj ls (Some e)) acc = Inl e"
  by (induction ls arbitrary: acc) auto

lemma for_range_text:
  "[] \<notin> set ls \<Longrightarrow> for_range k (FileObj ls None) acc = Inr (acc @ map strip (take k ls))"
proof (induction k arbitrary: ls acc)
  case 0
  then show ?case by simp
next
  case (Suc k)
  then show ?case by (cases ls) auto
qed

lemma open_r_text:
  "lookup w p = Some f \<Longrightarrow> faccess f = None \<Longrightarrow> fcontent f = Text s \<Longrightarrow>
   open_r w p = Inr (FileObj (iter_lines s) None)"
  by (simp add: open_r_def)

lemma open_r_undecodable:
  "lookup w p = Some f \<Longrightarrow> faccess f = None \<Longrightarrow> fcontent f = Undecodable ls m \<Longrightarrow>
   open_r w p = Inr (FileObj ls (Some (Exn UnicodeDecodeError m)))"
  by (simp add: open_r_def)

lemma read_line_by_line_text:
  "lookup w p = Some f \<Longrightarrow> faccess f = None \<Longrightarrow> fcontent f = Text s \<Longrightarrow>
   read_line_by_line w p = Inr (join [10] (map strip (iter_lines s)))"
  by (simp add: read_line_by_line_def open_r_text for_line_in_file_text)

lemma read_all_text:
  "lookup w p = Some f \<Longrightarrow> faccess f = None \<Longrightarrow> fcontent f = Text s \<Longrightarrow>
   read_all w p = Inr s"
  by (simp add: read_all_def open_r_text concat_iter_lines)

lemma read_n_lines_text:
  "lookup w p = Some f \<Longrightarrow> faccess f = None \<Longrightarrow> fcontent f = Text s \<Longrightarrow>
   read_n_lines_from_file w p n =
     Inr (join [10] (map strip (take (nat n) (iter_lines s)))
          @ py ''\<newline>...\<newline>There are only '' @ str_int n @ py '' lines of the file.'')"
  by (simp add: read_n_lines_from_file_def open_r_text for_range_text iter_lines_nonempty)

text \<open>
  A file that is not large and whose decoding fails is answered with the sentinel, in both
  modes of reading.
\<close>

lemma read_file_small_undecodable:
  assumes "lookup w p = Some f" "faccess f = None" "fcontent f = Undecodable ls m"
    and "\<not> file_is_large w p (LARGE_SIZE_FILE cfg)"
  shows "read_file cfg w p line_by_line = Inr NOT_A_TEXT_FILE"
  using assms
  by (simp add: read_file_def read_line_by_line_def read_all_def open_r_undecodable
      for_line_in_file_raises)

text \<open>
  C4. The test for a large file is a strict comparison of the size in bytes with the
  threshold in megabytes: a file that exists is large exactly when its size is greater
  than the threshold times 1024 times 1024. So a file of exactly the threshold is not
  large, and a file one byte over it is.
\<close>

theorem file_is_large_strict:
  assumes "lookup w file_path = Some f"
  shows "(file_is_large w file_path threshold_mb
            \<longleftrightarrow> int (fsize f) > threshold_mb * 1024 * 1024)
       \<and> (int (fsize f) = threshold_mb * 1024 * 1024
            \<longrightarrow> \<not> file_is_large w file_path threshold_mb)
       \<and> (int (fsize f) = threshold_mb * 1024 * 1024 + 1
            \<longrightarrow> file_is_large w file_path threshold_mb)"
  using assms by (simp add: file_is_large_def)

theorem file_is_large_strict_witness:
  "lookup world_threshold (Named (py ''exact.txt''))
     = Some (plain_file 10485760 (Text (replicate 10485760 120)))
   \<and> int (fsize (plain_file 10485760 (Text (replicate 10485760 120)))) = 10 * 1024 * 1024
   \<and> \<not> file_is_large world_threshold (Named (py ''exact.txt'')) 10
   \<and> lookup world_threshold (Named (py ''over.txt''))
     = Some (plain_file 10485761 (Text (replicate 10485761 120)))
   \<and> int (fsize (plain_file 10485761 (Text (replicate 10485761 120)))) = 10 * 1024 * 1024 + 1
   \<and> file_is_large world_threshold (Named (py ''over.txt'')) 10"
proof -
  have a: "lookup world_threshold (Named (py ''exact.txt''))
            = Some (plain_file 10485760 (Text (replicate 10485760 120)))"
    by (simp add: lookup_def world_threshold_def py_def)
  have b: "lookup world_threshold (Named (py ''over.txt''))
            = Some (plain_file 10485761 (Text (replicate 10485761 120)))"
    by (simp add: lookup_def world_threshold_def py_def)
  show ?thesis
    using a b file_is_large_strict [OF a, of 10] file_is_large_strict [OF b, of 10]
    by (simp add: plain_file_def)
qed

text \<open>
  C5. For a file over the threshold: when the policy is 0, \<open>read_file\<close> returns the
  fixed placeholder, whatever the file holds; when the policy is a positive integer
  \<open>n\<close> and the file is a readable text file, it returns the first \<open>n\<close> lines, each
  stripped, joined by newlines and followed by the footer that names \<open>n\<close>; when the
  policy is \<open>None\<close> and the file is a readable text file, it returns all the lines,
  each stripped, joined by newlines.
\<close>

theorem read_file_large_policy:
  assumes "file_is_large w file_path (LARGE_SIZE_FILE cfg)"
  shows "(MAX_LINES_FOR_LARGE_FILE cfg = Lines 0 \<longrightarrow>
            read_file cfg w file_path line_by_line = Inr (py ''The file could not be read.\<newline>''))
       \<and> (\<forall>n f s. MAX_LINES_FOR_LARGE_FILE cfg = Lines n \<and> 0 < n \<and> lookup w file_path = Some f
              \<and> faccess f = None \<and> fcontent f = Text s \<longrightarrow>
            read_file cfg w file_path line_by_line =
              Inr (join [10] (map strip (take (nat n) (iter_lines s)))
                   @ py ''\<newline>...\<newline>There are only '' @ str_int n @ py '' lines of the file.''))
       \<and> (\<forall>f s. MAX_LINES_FOR_LARGE_FILE cfg = Unbounded \<and> lookup w file_path = Some f
              \<and> faccess f = None \<and> fcontent f = Text s \<longrightarrow>
            read_file cfg w file_path line_by_line = Inr (join [10] (map strip (iter_lines s))))"
  using assms by (auto simp: read_file_def read_n_lines_text read_line_by_line_text)

theorem read_file_large_policy_witness:
  "file_is_large world_lines (Named (py ''log.txt'')) 0
   \<and> read_file (config_of (Lines 0)) world_lines (Named (py ''log.txt'')) False
       = Inr (py ''The file could not be read.\<newline>'')
   \<and> read_file (config_of (Lines 2)) world_lines (Named (py ''log.txt'')) False
       = Inr (py ''a\<newline>b\<newline>...\<newline>There are only 2 lines of the file.'')
   \<and> read_file (config_of Unbounded) world_lines (Named (py ''log.txt'')) False
       = Inr (py ''a\<newline>b\<newline>c\<newline>d'')"
proof -
  have l: "\<And>m. file_is_large world_lines (Named (py ''log.txt'')) (LARGE_SIZE_FILE (config_of m))"
    by (simp add: eval_defs world_lines_def)
  have f: "lookup world_lines (Named (py ''log.txt'')) = Some (plain_file 13 (Text four_lines))"
    by (simp add: lookup_def world_lines_def py_def)
  have i: "iter_lines four_lines = [py ''  a  \<newline>'', py '' b\<newline>'', py ''c\<newline>'', py ''d\<newline>'']"
    by (simp add: four_lines_def py_def)
  have s: "map strip (iter_lines four_lines) = [py ''a'', py ''b'', py ''c'', py ''d'']"
    by (simp add: i) (simp add: py_def strip_defs)
  have t: "map strip (take 2 (iter_lines four_lines)) = [py ''a'', py ''b'']"
    by (simp add: i) (simp add: py_def strip_defs)
  have n: "str_int 2 = py ''2''"
    by (simp add: str_int_def str_nat.simps py_def)
  have "read_file (config_of (Lines 0)) world_lines (Named (py ''log.txt'')) False
       = Inr (py ''The file could not be read.\<newline>'')"
    using read_file_large_policy [OF l, of "Lines 0" False] by (simp add: config_of_def)
  moreover have "read_file (config_of (Lines 2)) world_lines (Named (py ''log.txt'')) False
       = Inr (py ''a\<newline>b\<newline>...\<newline>There are only 2 lines of the file.'')"
    using read_file_large_policy [OF l, of "Lines 2" False] f t n
    by (simp add: config_of_def plain_file_def) (simp add: py_def)
  moreover have "read_file (config_of Unbounded) world_lines (Named (py ''log.txt'')) False
       = Inr (py ''a\<newline>b\<newline>c\<newline>d'')"
    using read_file_large_policy [OF l, of Unbounded False] f s
    by (simp add: config_of_def plain_file_def) (simp add: py_def)
  ultimately show ?thesis using l [of Unbounded] by (simp add: config_of_def)
qed

lemma strip_with_decompose:
  "\<exists>a b. l = a @ strip_with P l @ b \<and> (\<forall>c\<in>set a. P c) \<and> (\<forall>c\<in>set b. P c)"
proof -
  let ?m = "dropWhile P l"
  have 1: "l = takeWhile P l @ ?m" by simp
  have 2: "?m = rev (dropWhile P (rev ?m)) @ rev (takeWhile P (rev ?m))"
    by (metis rev_append rev_rev_ident takeWhile_dropWhile_id)
  have 3: "\<forall>c\<in>set (takeWhile P l). P c" by (auto dest: set_takeWhileD)
  have 4: "\<forall>c\<in>set (rev (takeWhile P (rev ?m))). P c" by (auto dest: set_takeWhileD)
  have "l = takeWhile P l @ strip_with P l @ rev (takeWhile P (rev ?m))"
    using 1 2 by (simp add: strip_with_def lstrip_with_def rstrip_with_def)
  with 3 4 show ?thesis by blast
qed

lemma strip_with_ends:
  assumes "strip_with P l \<noteq> []"
  shows "\<not> P (hd (strip_with P l)) \<and> \<not> P (last (strip_with P l))"
proof -
  let ?m = "dropWhile P l"
  let ?r = "dropWhile P (rev ?m)"
  have s: "strip_with P l = rev ?r"
    by (simp add: strip_with_def lstrip_with_def rstrip_with_def)
  with assms have r: "?r \<noteq> []" by simp
  then have m: "?m \<noteq> []" by (metis dropWhile.simps(1) rev.simps(1))
  have "\<not> P (hd ?r)" using r by (rule hd_dropWhile)
  then have l: "\<not> P (last (strip_with P l))" using r by (simp add: s last_rev)
  have "?m = rev ?r @ rev (takeWhile P (rev ?m))"
    by (metis rev_append rev_rev_ident takeWhile_dropWhile_id)
  then have "hd ?m = hd (rev ?r)" using r by (metis hd_append2 rev_is_Nil_conv)
  moreover have "\<not> P (hd ?m)" using m by (rule hd_dropWhile)
  ultimately show ?thesis using l by (simp add: s)
qed

lemma for_range_raises:
  "0 < k \<Longrightarrow> for_range k (FileObj [] (Some e)) acc = Inl e"
  by (cases k) auto

text \<open>
  C6, as the specification states it, fails: the lines of the file \<open>a.txt\<close>, which holds
  two blanks, \<open>x\<close>, a newline, \<open>y\<close>, two blanks and a newline, are returned as \<open>x\<close>
  and \<open>y\<close>, while stripping the trailing whitespace alone would keep the two blanks before
  \<open>x\<close>.
\<close>

theorem line_mode_keeps_leading_whitespace_counterexample:
  "read_file default_config world_indent (Named (py ''a.txt'')) True = Inr (py ''x\<newline>y'')
   \<and> spec_line_mode (py ''  x\<newline>y  \<newline>'') = py ''  x\<newline>y''
   \<and> read_file default_config world_indent (Named (py ''a.txt'')) True
       \<noteq> Inr (spec_line_mode (py ''  x\<newline>y  \<newline>''))"
  by (simp add: read_file_def read_line_by_line_def open_r_def eval_defs world_indent_def
      spec_line_mode_def strip_defs)

text \<open>
  C6, amended. In the line mode, \<open>read_file\<close> on a readable text file that is not large
  returns the lines of the file, each stripped by \<open>str.strip\<close>, joined by newlines.
  The lines are those of the text; a stripped line is the line without a run of whitespace
  at its start and a run of whitespace at its end, and it neither starts nor ends with
  whitespace: leading whitespace is removed as trailing whitespace is.
\<close>

theorem read_file_line_mode_strips_both_ends:
  assumes "lookup w file_path = Some f" "faccess f = None" "fcontent f = Text s"
    and "\<not> file_is_large w file_path (LARGE_SIZE_FILE cfg)"
  shows "read_file cfg w file_path True = Inr (join [10] (map strip (iter_lines s)))
       \<and> concat (iter_lines s) = s
       \<and> (\<forall>l\<in>set (iter_lines s).
            (\<exists>a b. l = a @ strip l @ b \<and> (\<forall>c\<in>set a. isspace c) \<and> (\<forall>c\<in>set b. isspace c))
            \<and> (strip l = [] \<or> (\<not> isspace (hd (strip l)) \<and> \<not> isspace (last (strip l)))))"
proof -
  have "read_file cfg w file_path True = Inr (join [10] (map strip (iter_lines s)))"
    using assms by (simp add: read_file_def read_line_by_line_text)
  moreover have "\<And>l. \<exists>a b. l = a @ strip l @ b \<and> (\<forall>c\<in>set a. isspace c) \<and> (\<forall>c\<in>set b. isspace c)"
    unfolding strip_def by (rule strip_with_decompose)
  moreover have "\<And>l. strip l = [] \<or> (\<not> isspace (hd (strip l)) \<and> \<not> isspace (last (strip l)))"
    unfolding strip_def using strip_with_ends by blast
  ultimately show ?thesis by (simp add: concat_iter_lines)
qed

theorem read_file_line_mode_strips_both_ends_witness:
  "lookup world_indent (Named (py ''a.txt'')) = Some (plain_file 8 (Text (py ''  x\<newline>y  \<newline>'')))
   \<and> faccess (plain_file 8 (Text (py ''  x\<newline>y  \<newline>''))) = None
   \<and> \<not> file_is_large world_indent (Named (py ''a.txt'')) (LARGE_SIZE_FILE default_config)
   \<and> read_file default_config world_indent (Named (py ''a.txt'')) True = Inr (py ''x\<newline>y'')"
proof -
  have f: "lookup world_indent (Named (py ''a.txt''))
            = Some (plain_file 8 (Text (py ''  x\<newline>y  \<newline>'')))"
    by (simp add: lookup_def world_indent_def py_def)
  have a: "faccess (plain_file 8 (Text (py ''  x\<newline>y  \<newline>''))) = None"
    by (simp add: plain_file_def)
  have c: "fcontent (plain_file 8 (Text (py ''  x\<newline>y  \<newline>''))) = Text (py ''  x\<newline>y  \<newline>'')"
    by (simp add: plain_file_def)
  have l: "\<not> file_is_large world_indent (Named (py ''a.txt'')) (LARGE_SIZE_FILE default_config)"
    by (simp add: eval_defs world_indent_def)
  have j: "join [10] (map strip (iter_lines (py ''  x\<newline>y  \<newline>''))) = py ''x\<newline>y''"
    by (simp add: py_def strip_defs)
  show ?thesis
    using f a l read_file_line_mode_strips_both_ends [OF f a c l] by (simp add: j)
qed

text \<open>
  C2 fails on a large file. With the constants of the program, reading the file
  \<open>big.bin\<close> of 11 MB, whose bytes do not decode, raises \<open>UnicodeDecodeError\<close> instead
  of returning the sentinel: the branches for large files are outside the \<open>try\<close> block.
\<close>

theorem read_file_large_undecodable_raises:
  "read_file default_config world_binary (Named (py ''big.bin'')) False
     = Inl (Exn UnicodeDecodeError (py ''invalid start byte''))
   \<and> read_file default_config world_binary (Named (py ''big.bin'')) True
     = Inl (Exn UnicodeDecodeError (py ''invalid start byte''))"
  by (simp add: read_file_def read_n_lines_from_file_def open_r_def eval_defs world_binary_def
      for_range_raises)

section \<open>Properties of the ignore filter\<close>

lemma take_length_eq_iff: "take (length ex) t = ex \<longleftrightarrow> (\<exists>ss. t = ex @ ss)"
  by (metis append_eq_conv_conj append_take_drop_id)

lemma py_in_iff: "py_in ex t \<longleftrightarrow> (\<exists>ps ss. t = ps @ ex @ ss)"
proof (induction t)
  case Nil
  then show ?case by auto
next
  case (Cons c cs)
  have "(\<exists>ps ss. c # cs = ps @ ex @ ss) \<longleftrightarrow> (\<exists>ss. c # cs = ex @ ss) \<or> (\<exists>ps ss. cs = ps @ ex @ ss)"
  proof
    assume "\<exists>ps ss. c # cs = ps @ ex @ ss"
    then obtain ps ss where e: "c # cs = ps @ ex @ ss" by blast
    show "(\<exists>ss. c # cs = ex @ ss) \<or> (\<exists>ps ss. cs = ps @ ex @ ss)"
    proof (cases ps)
      case Nil
      with e show ?thesis by auto
    next
      case (Cons p ps')
      with e have "cs = ps' @ ex @ ss" by simp
      then show ?thesis by blast
    qed
  next
    assume "(\<exists>ss. c # cs = ex @ ss) \<or> (\<exists>ps ss. cs = ps @ ex @ ss)"
    then show "\<exists>ps ss. c # cs = ps @ ex @ ss"
    proof
      assume "\<exists>ss. c # cs = ex @ ss"
      then obtain ss where "c # cs = [] @ ex @ ss" by auto
      then show ?thesis by blast
    next
      assume "\<exists>ps ss. cs = ps @ ex @ ss"
      then obtain ps ss where "c # cs = (c # ps) @ ex @ ss" by auto
      then show ?thesis by blast
    qed
  qed
  with Cons show ?case by (simp only: py_in.simps take_length_eq_iff)
qed

text \<open>
  C8. The filter keeps the targets, in their order, that contain none of the ignore
  strings, where a target contains a string when the string occurs in it as a contiguous
  run of characters (no pattern is interpreted). With the ignore string \<open>test\<close>, the
  targets \<open>src/test_util.go\<close> and \<open>src/main.go\<close> filter to \<open>src/main.go\<close> alone.
\<close>

theorem ignores_apply_substring:
  "ignores_apply ignores targets
     = filter (\<lambda>t. \<forall>ex\<in>set ignores. \<not> (\<exists>ps ss. t = ps @ ex @ ss)) targets"
  by (simp add: ignores_apply_def list_ex_iff py_in_iff)

theorem ignores_apply_substring_witness:
  "py ''test'' \<in> set [py ''test'']
   \<and> filter (\<lambda>t. \<forall>ex\<in>set [py ''test'']. \<not> (\<exists>ps ss. t = ps @ ex @ ss))
        [py ''src/test_util.go'', py ''src/main.go'']
      = [py ''src/main.go'']
   \<and> ignores_apply [py ''test''] [py ''src/test_util.go'', py ''src/main.go''] = [py ''src/main.go'']"
proof -
  have "ignores_apply [py ''test''] [py ''src/test_util.go'', py ''src/main.go''] = [py ''src/main.go'']"
    by (simp add: ignores_apply_def py_def)
  then show ?thesis
    using ignores_apply_substring [of "[py ''test'']" "[py ''src/test_util.go'', py ''src/main.go'']"]
    by simp
qed

section \<open>Properties of the tree renderer\<close>

lemma sum_list_insort_key:
  "sum_list (map g (insort_key k x xs)) = (g x :: nat) + sum_list (map g xs)"
  by (induction xs) auto

lemma sum_list_sort_key: "sum_list (map g (sort_key k xs)) = (sum_list (map g xs) :: nat)"
  by (induction xs) (auto simp: sum_list_insort_key)

lemma print_tree_spec_aux:
  "print_tree t prefix c =
     (spec_tree t prefix,
      \<lparr>dirs_count = dirs_count c + spec_dirs t, files_count = files_count c + spec_files t\<rparr>)"
  "i + length items = n \<Longrightarrow>
   for_items items i n prefix lines c =
     (lines @ spec_level items prefix,
      \<lparr>dirs_count = dirs_count c + spec_dirs (Node items),
        files_count = files_count c + spec_files (Node items)\<rparr>)"
proof (induction t prefix c and items i n prefix lines c rule: print_tree_for_items.induct)
  case (1 d prefix c)
  then show ?case by (simp add: sum_list_sort_key)
next
  case (2 i n prefix lines c)
  then show ?case by simp
next
  case (3 name subtree rest i n prefix lines c)
  define connector where "connector = (if int i = int n - 1 then corner else tee)"
  define is_dir where "is_dir = (children subtree \<noteq> [])"
  define lines1 where "lines1 = (if is_dir then lines @ [prefix @ connector @ name @ [slash]]
                    else lines @ [prefix @ connector @ name])"
  define c1 where "c1 = (if is_dir then c\<lparr>dirs_count := dirs_count c + 1\<rparr>
                else c\<lparr>files_count := files_count c + 1\<rparr>)"
  define extension where "extension = (if int i = int n - 1 then blank else bar)"
  define sub where "sub = spec_tree subtree (prefix @ extension)"
  define c2 where "c2 = \<lparr>dirs_count = dirs_count c1 + spec_dirs subtree,
                          files_count = files_count c1 + spec_files subtree\<rparr>"
  have last: "int i = int n - 1 \<longleftrightarrow> rest = []"
    using "3.prems" by auto
  have p: "print_tree subtree (prefix @ extension) c1 = (sub, c2)"
    unfolding sub_def c2_def
    by (rule "3.IH"(1) [OF connector_def is_dir_def lines1_def c1_def extension_def])
  have n: "i + 1 + length rest = n"
    using "3.prems" by simp
  have f: "for_items rest (i + 1) n prefix (lines1 @ sub) c2 =
            ((lines1 @ sub) @ spec_level rest prefix,
             \<lparr>dirs_count = dirs_count c2 + spec_dirs (Node rest),
                files_count = files_count c2 + spec_files (Node rest)\<rparr>)"
    by (rule "3.IH"(2) [OF connector_def is_dir_def lines1_def c1_def extension_def p [symmetric] n])
  have u: "for_items ((name, subtree) # rest) i n prefix lines c
             = for_items rest (i + 1) n prefix (lines1 @ sub) c2"
  proof -
    have "for_items ((name, subtree) # rest) i n prefix lines c
            = (case print_tree subtree (prefix @ extension) c1 of
                 (sub, c2) \<Rightarrow> for_items rest (i + 1) n prefix (lines1 @ sub) c2)"
      unfolding lines1_def c1_def connector_def is_dir_def extension_def
      by (simp only: for_items.simps Let_def)
    then show ?thesis by (simp only: p prod.case)
  qed
  have l: "(lines1 @ sub) @ spec_level rest prefix
             = lines @ spec_level ((name, subtree) # rest) prefix"
    by (simp add: lines1_def sub_def connector_def extension_def is_dir_def last)
  have d: "dirs_count c2 + spec_dirs (Node rest)
             = dirs_count c + spec_dirs (Node ((name, subtree) # rest))"
    by (simp add: c2_def c1_def is_dir_def)
  have fl: "files_count c2 + spec_files (Node rest)
             = files_count c + spec_files (Node ((name, subtree) # rest))"
    by (simp add: c2_def c1_def is_dir_def)
  show ?case
    by (simp only: u f l d fl)
qed


lemma map_add_fresh:
  "map_of d k = None \<Longrightarrow> ([k \<mapsto> v] ++ map_of d) q = (if q = k then Some v else map_of d q)"
  by (auto simp: map_add_def split: option.splits)

lemma in_tree_empty: "in_tree (Node []) qs \<longleftrightarrow> qs = []"
  by (cases qs) auto

lemma in_tree_setdefault_parts:
  "in_tree (setdefault_parts ps t) qs \<longleftrightarrow> in_tree t qs \<or> (\<exists>rs. ps = qs @ rs)"
proof (induction ps arbitrary: t qs)
  case Nil
  then show ?case by (cases qs) auto
next
  case (Cons p ps)
  obtain d where t: "t = Node d" by (cases t)
  show ?case
  proof (cases qs)
    case Nil
    then show ?thesis by simp
  next
    case (Cons q qs')
    show ?thesis
    proof (cases "map_of d p")
      case None
      then show ?thesis
        using Cons.IH [of "Node []" qs']
        by (auto simp: t Cons map_add_fresh in_tree_empty)
    next
      case (Some sub)
      then show ?thesis
        using Cons.IH [of sub qs']
        by (auto simp: t Cons update_conv')
    qed
  qed
qed

lemma in_tree_fold:
  "in_tree (fold (\<lambda>path tree. setdefault_parts (path_parts path) tree) paths t) qs
     \<longleftrightarrow> in_tree t qs \<or> (\<exists>p\<in>set paths. \<exists>rs. path_parts p = qs @ rs)"
  by (induction paths arbitrary: t) (auto simp: in_tree_setdefault_parts)

lemma in_tree_build_tree:
  "in_tree (build_tree paths) qs
     \<longleftrightarrow> qs = [] \<or> (\<exists>p\<in>set paths. \<exists>rs. path_parts p = qs @ rs)"
  by (simp add: build_tree_def in_tree_fold in_tree_empty)

lemma set_update_subset: "set (AList.update k v d) \<subseteq> insert (k, v) (set d)"
  by (induction d) auto

lemma distinct_keys_setdefault_parts:
  "distinct_keys t \<Longrightarrow> distinct_keys (setdefault_parts ps t)"
proof (induction ps arbitrary: t)
  case Nil
  then show ?case by simp
next
  case (Cons p ps)
  obtain d where t: "t = Node d" by (cases t)
  show ?case
  proof (cases "map_of d p")
    case None
    then have "p \<notin> fst ` set d" by (simp add: map_of_eq_None_iff)
    moreover have "distinct_keys (setdefault_parts ps (Node []))"
      by (rule Cons.IH) simp
    ultimately show ?thesis using Cons.prems None by (auto simp: t)
  next
    case (Some sub)
    then have "(p, sub) \<in> set d" by (rule map_of_SomeD)
    then have "distinct_keys sub" using Cons.prems by (auto simp: t)
    then have "distinct_keys (setdefault_parts ps sub)" by (rule Cons.IH)
    then show ?thesis
      using Cons.prems Some set_update_subset [of p "setdefault_parts ps sub" d]
      by (auto simp: t distinct_update)
  qed
qed

lemma distinct_keys_build_tree: "distinct_keys (build_tree paths)"
proof -
  have "distinct_keys t \<Longrightarrow>
        distinct_keys (fold (\<lambda>path tree. setdefault_parts (path_parts path) tree) paths t)" for t
    by (induction paths arbitrary: t) (auto simp: distinct_keys_setdefault_parts)
  then show ?thesis by (simp add: build_tree_def)
qed

lemma in_tree_snoc:
  "in_tree t (qs @ [k]) \<longleftrightarrow> (case descend t qs of None \<Rightarrow> False | Some sub \<Rightarrow> in_tree sub [k])"
proof (induction qs arbitrary: t)
  case Nil
  then show ?case by simp
next
  case (Cons q qs)
  obtain d where "t = Node d" by (cases t)
  with Cons show ?case by (simp split: option.splits)
qed

lemma has_child_iff: "children sub \<noteq> [] \<longleftrightarrow> (\<exists>k. in_tree sub [k])"
proof (cases sub)
  case (Node d)
  show ?thesis
  proof (cases d)
    case Nil
    with Node show ?thesis by simp
  next
    case (Cons kv d')
    obtain k v where "kv = (k, v)" by (cases kv)
    with Node Cons have "in_tree sub [k]" by simp
    with Node Cons show ?thesis by auto
  qed
qed

lemma build_example:
  "build_tree example_paths
     = Node [(py ''a'', Node [(py ''b.txt'', Node []), (py ''c.txt'', Node [])]),
             (py ''d.txt'', Node [])]"
  by (simp add: example_paths_def build_tree_def path_parts_def slash_def py_def
      strip_with_def lstrip_with_def rstrip_with_def)

lemma paths_as_tree_example:
  "paths_as_tree example_paths
     = py ''. Files that were selected:\<newline>|\<newline>'' @ tee @ py ''a/\<newline>''
       @ bar @ tee @ py ''b.txt\<newline>'' @ bar @ corner @ py ''c.txt\<newline>''
       @ corner @ py ''d.txt\<newline>\<newline>1 directories, 3 files''"
  by (simp add: paths_as_tree_def build_example)
     (simp add: py_def slash_def Let_def tee_def bar_def corner_def blank_def str_nat.simps)

text \<open>
  C3. \<open>paths_as_tree\<close> builds the tree from the parts of each path, split at the
  separator: a list of segments leads to a node of the tree exactly when it is empty or
  starts the parts of one of the paths, and no dictionary of the tree has a key twice.
  A node has children exactly when some path of the tree goes one segment further, and
  that is the test by which the renderer shows a segment as a directory. The loop of each
  level runs over the children sorted by name in lexicographic order. The text returned is
  the header, the rendering of the specification and the summary line with the number of
  directories and files. For the paths \<open>a/b.txt\<close>, \<open>a/c.txt\<close> and \<open>d.txt\<close> the
  directory \<open>a/\<close> comes before \<open>d.txt\<close> at the root and the summary reports 1
  directory and 3 files.
\<close>

theorem paths_as_tree_spec:
  "(\<forall>qs. in_tree (build_tree paths) qs
           \<longleftrightarrow> qs = [] \<or> (\<exists>p\<in>set paths. \<exists>rs. path_parts p = qs @ rs))
   \<and> distinct_keys (build_tree paths)
   \<and> (\<forall>qs sub. descend (build_tree paths) qs = Some sub \<longrightarrow>
         (children sub \<noteq> [] \<longleftrightarrow> (\<exists>k. in_tree (build_tree paths) (qs @ [k]))))
   \<and> (\<forall>d :: (pystr \<times> tree) list.
         sorted (map fst (sort_key fst d)) \<and> set (sort_key fst d) = set d
         \<and> length (sort_key fst d) = length d)
   \<and> paths_as_tree paths
       = join [10]
           ([py ''. Files that were selected:\<newline>|''] @ spec_tree (build_tree paths) [] @
            [py ''\<newline>'' @ str_nat (spec_dirs (build_tree paths)) @ py '' directories, ''
             @ str_nat (spec_files (build_tree paths)) @ py '' files''])
   \<and> paths_as_tree [py ''a/b.txt'', py ''a/c.txt'', py ''d.txt'']
       = py ''. Files that were selected:\<newline>|\<newline>'' @ tee @ py ''a/\<newline>''
         @ bar @ tee @ py ''b.txt\<newline>'' @ bar @ corner @ py ''c.txt\<newline>''
         @ corner @ py ''d.txt\<newline>\<newline>1 directories, 3 files''"
proof -
  have 1: "\<forall>qs. in_tree (build_tree paths) qs
           \<longleftrightarrow> qs = [] \<or> (\<exists>p\<in>set paths. \<exists>rs. path_parts p = qs @ rs)"
    by (simp add: in_tree_build_tree)
  have 2: "distinct_keys (build_tree paths)"
    by (rule distinct_keys_build_tree)
  have 3: "\<forall>qs sub. descend (build_tree paths) qs = Some sub \<longrightarrow>
         (children sub \<noteq> [] \<longleftrightarrow> (\<exists>k. in_tree (build_tree paths) (qs @ [k])))"
    by (simp add: in_tree_snoc has_child_iff)
  have 4: "\<forall>d :: (pystr \<times> tree) list.
         sorted (map fst (sort_key fst d)) \<and> set (sort_key fst d) = set d
         \<and> length (sort_key fst d) = length d"
    by simp
  have 5: "paths_as_tree paths
       = join [10]
           ([py ''. Files that were selected:\<newline>|''] @ spec_tree (build_tree paths) [] @
            [py ''\<newline>'' @ str_nat (spec_dirs (build_tree paths)) @ py '' directories, ''
             @ str_nat (spec_files (build_tree paths)) @ py '' files''])"
    by (simp add: paths_as_tree_def print_tree_spec_aux(1) Let_def del: print_tree.simps)
  have 6: "paths_as_tree [py ''a/b.txt'', py ''a/c.txt'', py ''d.txt'']
       = py ''. Files that were selected:\<newline>|\<newline>'' @ tee @ py ''a/\<newline>''
         @ bar @ tee @ py ''b.txt\<newline>'' @ bar @ corner @ py ''c.txt\<newline>''
         @ corner @ py ''d.txt\<newline>\<newline>1 directories, 3 files''"
    using paths_as_tree_example by (simp only: example_paths_def)
  from 1 2 3 4 5 6 show ?thesis by (intro conjI)
qed

theorem paths_as_tree_spec_witness:
  "py ''a/b.txt'' \<in> set example_paths
   \<and> path_parts (py ''a/b.txt'') = [py ''a''] @ [py ''b.txt'']
   \<and> in_tree (build_tree example_paths) [py ''a'']
   \<and> descend (build_tree example_paths) [py ''a'']
       = Some (Node [(py ''b.txt'', Node []), (py ''c.txt'', Node [])])
   \<and> children (Node [(py ''b.txt'', Node []), (py ''c.txt'', Node [])]) \<noteq> []
   \<and> (\<exists>k. in_tree (build_tree example_paths) ([py ''a''] @ [k]))
   \<and> spec_dirs (build_tree example_paths) = 1
   \<and> spec_files (build_tree example_paths) = 3"
proof -
  have m: "py ''a/b.txt'' \<in> set example_paths"
    by (simp add: example_paths_def)
  have p: "path_parts (py ''a/b.txt'') = [py ''a''] @ [py ''b.txt'']"
    by (simp add: path_parts_def slash_def py_def strip_with_def lstrip_with_def rstrip_with_def)
  have d: "descend (build_tree example_paths) [py ''a'']
       = Some (Node [(py ''b.txt'', Node []), (py ''c.txt'', Node [])])"
    by (simp add: build_example)
  have c: "children (Node [(py ''b.txt'', Node []), (py ''c.txt'', Node [])]) \<noteq> []"
    by simp
  have n: "spec_dirs (build_tree example_paths) = 1 \<and> spec_files (build_tree example_paths) = 3"
    by (simp add: build_example)
  note t = paths_as_tree_spec [of example_paths]
  from t m p have i: "in_tree (build_tree example_paths) [py ''a'']" by blast
  from t d c have k: "\<exists>k. in_tree (build_tree example_paths) ([py ''a''] @ [k])" by blast
  from m p i d c k n show ?thesis by (intro conjI) simp_all
qed

section \<open>Properties of the archive reader\<close>

lemmas archive_defs = inspect_archive_def is_zipfile_def is_tarfile_def ZipFile_def getmembers_def
  opener_read_def read_archive_def try_body_def binary_file_def

text \<open>
  In a zip archive an entry that cannot be read leaves its marker among the parts, and
  the loop goes on with the entries after it.
\<close>

lemma zip_entry_failure_is_marked:
  "for_name_in_namelist cfg path (before @ (name, Inl e) # after) parts w
     = (case for_name_in_namelist cfg path before parts w of
          (parts1, w1) \<Rightarrow>
            for_name_in_namelist cfg path after
              (parts1 @ [section_of (path @ arrow @ name) (py ''[Unreadable file]'')]) w1)"
proof (induction before arbitrary: parts w)
  case Nil
  then show ?case by simp
next
  case (Cons entry before)
  obtain n r where "entry = (n, r)" by (cases entry)
  with Cons show ?case
    by (simp add: NamedTemporaryFile_write_def split: sum.splits)
qed

text \<open>
  C1 fails for tar archives. The archive \<open>a.tar\<close> has two regular members; reading the
  first raises an exception and the second holds a line of text. The loop over the members
  has no handler of its own, so the exception reaches the handler of the whole archive:
  the text returned has the error line of the archive, no marker for the first member and
  no section for the second.
\<close>

theorem tar_member_failure_aborts_archive:
  "read_archive default_config world_tar (py ''a.tar'')
     = Inr (py ''## Archive content of a.tar (tar)\<newline>[Error reading archive: unexpected end of data]'',
            world_tar)"
  by (simp add: archive_defs world_tar_def py_def)

lemma read_file_text_ok:
  assumes "lookup w p = Some f" "faccess f = None" "fcontent f = Text s"
  shows "\<exists>r. read_file cfg w p line_by_line = Inr r"
  using assms
  by (auto simp: read_file_def read_n_lines_text read_line_by_line_text read_all_text
      split: max_lines.splits)

lemma lookup_fresh_temp:
  "lookup (w\<lparr>temps := temps w @ [f]\<rparr>) (Temp (length (temps w))) = Some f"
  by (simp add: lookup_def)

lemma read_file_temp_ok:
  "NamedTemporaryFile_write w content = (tmp, w1) \<Longrightarrow> \<exists>r. read_file cfg w1 tmp line_by_line = Inr r"
  unfolding NamedTemporaryFile_write_def
  using read_file_text_ok [OF lookup_fresh_temp, of "temp_file content" "universal_newlines content" cfg w]
  by (auto simp: temp_file_def)

lemma zip_loop_world:
  "for_name_in_namelist cfg path entries parts w = (parts', w') \<Longrightarrow>
   fs w' = fs w \<and> temps w' = temps w @ map temp_file (zip_written entries)"
proof (induction entries arbitrary: parts w)
  case Nil
  then show ?case by simp
next
  case (Cons entry entries)
  obtain name r where e: "entry = (name, r)" by (cases entry)
  show ?case
  proof (cases r)
    case (Inl x)
    with Cons e show ?thesis by simp
  next
    case (Inr content)
    let ?w1 = "w\<lparr>temps := temps w @ [temp_file content]\<rparr>"
    obtain parts1 where
      "for_name_in_namelist cfg path entries parts1 ?w1 = (parts', w')"
      using Cons.prems e Inr
      by (auto simp: NamedTemporaryFile_write_def split: sum.splits)
    from Cons.IH [OF this] show ?thesis using e Inr by simp
  qed
qed

lemma tar_loop_world:
  "for_member_in_getmembers cfg path members parts w = (raised, parts', w') \<Longrightarrow>
   fs w' = fs w \<and> temps w' = temps w @ map temp_file (tar_written members)"
proof (induction members arbitrary: parts w)
  case Nil
  then show ?case by simp
next
  case (Cons member members)
  show ?case
  proof (cases "tm_isfile member")
    case False
    with Cons show ?thesis by simp
  next
    case True
    show ?thesis
    proof (cases "tm_data member")
      case (Inl e)
      with Cons.prems True show ?thesis by auto
    next
      case (Inr d)
      show ?thesis
      proof (cases d)
        case None
        with Cons True Inr show ?thesis by simp
      next
        case (Some content)
        let ?w1 = "w\<lparr>temps := temps w @ [temp_file content]\<rparr>"
        obtain r where r: "read_file cfg ?w1 (Temp (length (temps w))) False = Inr r"
          using read_file_temp_ok [of w content "Temp (length (temps w))" ?w1 cfg False]
          by (auto simp: NamedTemporaryFile_write_def)
        then obtain parts1 where
          "for_member_in_getmembers cfg path members parts1 ?w1 = (raised, parts', w')"
          using Cons.prems True Inr Some
          by (auto simp: NamedTemporaryFile_write_def)
        from Cons.IH [OF this] show ?thesis using True Inr Some by simp
      qed
    qed
  qed
qed

lemma read_archive_world_zip:
  "read_archive default_config world_zip (py ''a.zip'')
     = Inr (py ''## Archive content of a.zip (zip)\<newline>\<newline>## a.zip'' @ arrow
            @ py ''m1\<newline>[Unreadable file]\<newline>\<newline>\<newline>## a.zip'' @ arrow
            @ py ''m2\<newline>hello\<newline>\<newline>'',
            world_zip\<lparr>temps := [temp_file (py ''hello\<newline>'')]\<rparr>)"
  by (simp add: archive_defs world_zip_def py_def NamedTemporaryFile_write_def temp_file_def
      utf8_len_def read_file_def read_all_def open_r_def lookup_def file_is_large_def
      default_config_def section_of_def arrow_def)

text \<open>
  C9, as the specification states it, fails: after \<open>read_archive\<close> has returned for the
  archive \<open>a.zip\<close>, the temporary file written for its second entry, which did not exist
  before, is still there.
\<close>

theorem temporary_file_remains_counterexample:
  "read_archive default_config world_zip (py ''a.zip'')
     = Inr (py ''## Archive content of a.zip (zip)\<newline>\<newline>## a.zip'' @ arrow
            @ py ''m1\<newline>[Unreadable file]\<newline>\<newline>\<newline>## a.zip'' @ arrow
            @ py ''m2\<newline>hello\<newline>\<newline>'',
            world_zip\<lparr>temps := [temp_file (py ''hello\<newline>'')]\<rparr>)
   \<and> lookup world_zip (Temp 0) = None
   \<and> lookup (world_zip\<lparr>temps := [temp_file (py ''hello\<newline>'')]\<rparr>) (Temp 0)
       = Some (temp_file (py ''hello\<newline>''))"
  using read_archive_world_zip by (simp add: lookup_def world_zip_def)

text \<open>
  C9, amended. \<open>read_archive\<close> deletes no file. When it returns, the named files are
  as before, every temporary file that existed is as before, and one temporary file has
  been added, and is left, for every text it wrote: each entry of a zip archive that could
  be read, each regular member of a tar archive before the first that could not, the
  payload of a compressed stream.
\<close>

theorem read_archive_keeps_temporary_files:
  assumes "read_archive cfg w path = Inr (s, w')"
  shows "fs w' = fs w
       \<and> temps w' = temps w @ map temp_file (written w path)
       \<and> (\<forall>i < length (temps w). lookup w' (Temp i) = lookup w (Temp i))
       \<and> (\<forall>i < length (written w path).
            lookup w' (Temp (length (temps w) + i)) = Some (temp_file (written w path ! i)))"
proof -
  have a: "fs w' = fs w \<and> temps w' = temps w @ map temp_file (written w path)"
  proof (cases "inspect_archive w path")
    case (Inl e)
    with assms show ?thesis by (simp add: read_archive_def)
  next
    case (Inr info)
    show ?thesis
    proof (cases info)
      case None
      with Inr assms show ?thesis by (simp add: read_archive_def written_def)
    next
      case (Some t)
      obtain raised parts where
        b: "try_body cfg w path t [py ''## Archive content of '' @ path @ py '' ('' @ t @ py '')'']
              = (raised, parts, w')"
        using assms Inr Some by (auto simp: read_archive_def split: prod.splits option.splits)
      have i: "written w path =
                 (if t = py ''zip'' then
                    (case ZipFile w path of Inl e \<Rightarrow> [] | Inr namelist \<Rightarrow> zip_written namelist)
                  else if t = py ''tar'' then
                    (case getmembers w path of Inl e \<Rightarrow> [] | Inr members \<Rightarrow> tar_written members)
                  else if t \<in> set [py ''gz'', py ''bz2'', py ''xz''] then
                    (case opener_read w path of Inl e \<Rightarrow> [] | Inr content \<Rightarrow> [content])
                  else [])"
        using Inr Some by (simp add: written_def)
      show ?thesis
      proof (cases "t = py ''zip''")
        case True
        show ?thesis
        proof (cases "ZipFile w path")
          case (Inl e)
          with b True i show ?thesis by (simp add: try_body_def)
        next
          case (Inr namelist)
          with b True obtain parts1 where
            "for_name_in_namelist cfg path namelist parts1 w = (parts, w')"
            by (auto simp: try_body_def split: prod.splits)
          from zip_loop_world [OF this] True Inr i show ?thesis by simp
        qed
      next
        case not_zip: False
        show ?thesis
        proof (cases "t = py ''tar''")
          case True
          show ?thesis
          proof (cases "getmembers w path")
            case (Inl e)
            with b True not_zip i show ?thesis by (simp add: try_body_def)
          next
            case (Inr members)
            with b True not_zip obtain parts1 where
              "for_member_in_getmembers cfg path members parts1 w = (raised, parts, w')"
              by (auto simp: try_body_def)
            from tar_loop_world [OF this] True not_zip Inr i show ?thesis by simp
          qed
        next
          case not_tar: False
          show ?thesis
          proof (cases "t \<in> set [py ''gz'', py ''bz2'', py ''xz'']")
            case False
            with b not_zip not_tar i show ?thesis by (simp add: try_body_def)
          next
            case True
            show ?thesis
            proof (cases "opener_read w path")
              case (Inl e)
              with b True not_zip not_tar i show ?thesis by (simp add: try_body_def)
            next
              case (Inr content)
              have "w' = w\<lparr>temps := temps w @ [temp_file content]\<rparr>"
                using b True not_zip not_tar Inr
                by (simp add: try_body_def NamedTemporaryFile_write_def split: sum.splits)
              with True not_zip not_tar Inr i show ?thesis by simp
            qed
          qed
        qed
      qed
    qed
  qed
  then show ?thesis by (auto simp: lookup_def nth_append)
qed

theorem read_archive_keeps_temporary_files_witness:
  "read_archive default_config world_zip (py ''a.zip'')
     = Inr (py ''## Archive content of a.zip (zip)\<newline>\<newline>## a.zip'' @ arrow
            @ py ''m1\<newline>[Unreadable file]\<newline>\<newline>\<newline>## a.zip'' @ arrow
            @ py ''m2\<newline>hello\<newline>\<newline>'',
            world_zip\<lparr>temps := [temp_file (py ''hello\<newline>'')]\<rparr>)
   \<and> written world_zip (py ''a.zip'') = [py ''hello\<newline>'']
   \<and> (0::nat) < length (written world_zip (py ''a.zip''))
   \<and> temps (world_zip\<lparr>temps := [temp_file (py ''hello\<newline>'')]\<rparr>)
       = temps world_zip @ map temp_file (written world_zip (py ''a.zip''))
   \<and> lookup (world_zip\<lparr>temps := [temp_file (py ''hello\<newline>'')]\<rparr>) (Temp (length (temps world_zip) + 0))
       = Some (temp_file (written world_zip (py ''a.zip'') ! 0))"
proof -
  have w: "written world_zip (py ''a.zip'') = [py ''hello\<newline>'']"
    by (simp add: written_def archive_defs world_zip_def py_def)
  have t: "temps world_zip = []"
    by (simp add: world_zip_def)
  show ?thesis
    using read_archive_keeps_temporary_files [OF read_archive_world_zip] read_archive_world_zip
    by (simp add: w t)
qed

lemma read_archive_open_error:
  assumes "inspect_archive w path = Inr (Some t)" and "open_error w path t = Some e"
  shows "read_archive cfg w path
           = Inr (join [10] [py ''## Archive content of '' @ path @ py '' ('' @ t @ py '')'',
                             py ''[Error reading archive: '' @ exn_str e @ py '']''], w)"
proof -
  have "try_body cfg w path t [py ''## Archive content of '' @ path @ py '' ('' @ t @ py '')'']
          = (Some e, [py ''## Archive content of '' @ path @ py '' ('' @ t @ py '')''], w)"
    using assms(2)
    by (auto simp: open_error_def try_body_def split: if_splits sum.splits)
  with assms(1) show ?thesis by (simp add: read_archive_def)
qed

lemma read_archive_returns:
  "inspect_archive w path = Inr info \<Longrightarrow> \<exists>s w'. read_archive cfg w path = Inr (s, w')"
  by (auto simp: read_archive_def split: option.splits prod.splits)

text \<open>
  A zip file with a valid signature that \<open>zipfile.ZipFile\<close> rejects is classified, the
  exception is caught inside \<open>read_archive\<close>, and the document is complete: it has the
  block of the archive with the error line and the block of the other file.
\<close>

lemma corrupt_zip_run_completes:
  "make_text_from_files default_config world_corrupt [py ''bad.zip'', py ''b.txt''] None
     = Inr (py ''Project structure\<newline>\<newline>. Files that were selected:\<newline>|\<newline>'' @ tee
            @ py ''b.txt\<newline>'' @ corner
            @ py ''bad.zip\<newline>\<newline>0 directories, 2 files\<newline>\<newline>---\<newline>\<newline>bad.zip\<newline>\<newline>```\<newline>## Archive content of bad.zip (zip)\<newline>[Error reading archive: Bad magic number]\<newline>```\<newline>---\<newline>\<newline>b.txt\<newline>\<newline>```\<newline>hi\<newline>\<newline>```\<newline>---\<newline>\<newline>'',
            world_corrupt)"
proof -
  have t: "paths_as_tree [py ''bad.zip'', py ''b.txt'']
             = py ''. Files that were selected:\<newline>|\<newline>'' @ tee @ py ''b.txt\<newline>''
               @ corner @ py ''bad.zip\<newline>\<newline>0 directories, 2 files''"
    by (simp add: paths_as_tree_def build_tree_def path_parts_def slash_def py_def
        strip_with_def lstrip_with_def rstrip_with_def)
       (simp add: py_def slash_def Let_def tee_def corner_def str_nat.simps)
  have i: "inspect_archive world_corrupt (py ''bad.zip'') = Inr (Some (py ''zip''))"
    by (simp add: archive_defs world_corrupt_def py_def)
  have o: "open_error world_corrupt (py ''bad.zip'') (py ''zip'')
             = Some (Exn LibraryError (py ''Bad magic number''))"
    by (simp add: open_error_def archive_defs world_corrupt_def py_def)
  have r: "read_file default_config world_corrupt (Named (py ''bad.zip'')) False
             = Inr (py ''Not a text file'')"
    by (simp add: read_file_def read_all_def open_r_def eval_defs world_corrupt_def
        binary_file_def NOT_A_TEXT_FILE_def)
  have a: "file_content_of default_config world_corrupt (py ''bad.zip'')
             = Inr (py ''\<newline>```\<newline>## Archive content of bad.zip (zip)\<newline>[Error reading archive: Bad magic number]\<newline>```\<newline>'',
                    world_corrupt)"
  proof -
    have ra: "read_archive default_config world_corrupt (py ''bad.zip'')
                = Inr (py ''## Archive content of bad.zip (zip)\<newline>[Error reading archive: Bad magic number]'',
                       world_corrupt)"
      using read_archive_open_error [OF i o, of default_config] by (simp add: py_def)
    have c: "READ_COMPRESSED_FILES default_config"
      by (simp add: default_config_def)
    show ?thesis
      by (simp add: file_content_of_def r i ra c fenced_def) (simp add: py_def)
  qed
  have b: "file_content_of default_config world_corrupt (py ''b.txt'')
             = Inr (py ''\<newline>```\<newline>hi\<newline>\<newline>```\<newline>'', world_corrupt)"
    by (simp add: file_content_of_def read_file_def read_all_def open_r_def eval_defs
        world_corrupt_def fenced_def)
  show ?thesis
    by (simp add: make_text_from_files_def t a b) (simp add: py_def)
qed

text \<open>
  C7 fails when the exception comes from the classification. The file \<open>trunc.gz\<close> is a
  gzip stream cut after its header, beside the text file \<open>b.txt\<close>. It is read as the
  sentinel, and \<open>tarfile.is_tarfile\<close> raises \<open>EOFError\<close> on it. Both calls of
  \<open>inspect_archive\<close>, the one in \<open>read_archive\<close> and the one in
  \<open>make_text_from_files\<close>, stand outside every \<open>try\<close>: \<open>read_archive\<close> raises
  instead of returning the error line, and the assembler raises too, so that no document
  is made and the block of \<open>b.txt\<close> is not produced.
\<close>

theorem damaged_gzip_aborts_run:
  "read_file default_config world_truncated (Named (py ''trunc.gz'')) False
     = Inr (py ''Not a text file'')
   \<and> inspect_archive world_truncated (py ''trunc.gz'')
     = Inl (Exn EOFError (py ''Compressed file ended before the end-of-stream marker was reached''))
   \<and> read_archive default_config world_truncated (py ''trunc.gz'')
     = Inl (Exn EOFError (py ''Compressed file ended before the end-of-stream marker was reached''))
   \<and> make_text_from_files default_config world_truncated [py ''trunc.gz'', py ''b.txt''] None
     = Inl (Exn EOFError (py ''Compressed file ended before the end-of-stream marker was reached''))
   \<and> make_text_from_files default_config world_truncated [py ''b.txt'', py ''trunc.gz''] None
     = Inl (Exn EOFError (py ''Compressed file ended before the end-of-stream marker was reached''))"
proof -
  let ?e = "Exn EOFError (py ''Compressed file ended before the end-of-stream marker was reached'')"
  have r: "read_file default_config world_truncated (Named (py ''trunc.gz'')) False
             = Inr (py ''Not a text file'')"
    by (simp add: read_file_def read_all_def open_r_def eval_defs world_truncated_def
        NOT_A_TEXT_FILE_def)
  have i: "inspect_archive world_truncated (py ''trunc.gz'') = Inl ?e"
    by (simp add: inspect_archive_def is_zipfile_def is_tarfile_def world_truncated_def py_def)
  have a: "read_archive default_config world_truncated (py ''trunc.gz'') = Inl ?e"
    by (simp add: read_archive_def i)
  have c: "file_content_of default_config world_truncated (py ''trunc.gz'') = Inl ?e"
    by (simp add: file_content_of_def r i)
  have b: "file_content_of default_config world_truncated (py ''b.txt'')
             = Inr (py ''\<newline>```\<newline>hi\<newline>\<newline>```\<newline>'', world_truncated)"
    by (simp add: file_content_of_def read_file_def read_all_def open_r_def eval_defs
        world_truncated_def fenced_def)
  have m1: "make_text_from_files default_config world_truncated [py ''trunc.gz'', py ''b.txt''] None
              = Inl ?e"
    by (simp add: make_text_from_files_def c)
  have m2: "make_text_from_files default_config world_truncated [py ''b.txt'', py ''trunc.gz''] None
              = Inl ?e"
    by (simp add: make_text_from_files_def b c)
  from r i a m1 m2 show ?thesis by (intro conjI)
qed

section \<open>Properties of the document assembler\<close>

lemma read_file_sentinel_text:
  assumes "lookup w (Named file) = Some f" "faccess f = None"
    and "fcontent f = Text (py ''Not a text file'')"
    and "\<not> file_is_large w (Named file) (LARGE_SIZE_FILE cfg)"
  shows "read_file cfg w (Named file) False = Inr (py ''Not a text file'')"
  using assms by (simp add: read_file_def read_all_text)

lemma inspect_archive_present:
  assumes "fs w file = Some f" "faccess f = None" "fcontent f = Text s"
  shows "\<exists>info. inspect_archive w file = Inr info"
  using assms by (simp add: inspect_archive_def is_tarfile_def)

text \<open>
  C10, as stated, fails: for the text file \<open>note.txt\<close>, whose whole content is the
  sentinel and which is no archive, the block of the document is the content of the file
  between the fences, character for character what the assembler emits for any other text
  file.
\<close>

theorem sentinel_text_file_block_counterexample:
  "file_content_of default_config world_sentinel (py ''note.txt'')
     = Inr (fenced (py ''Not a text file''), world_sentinel)
   \<and> lookup world_sentinel (Named (py ''note.txt''))
       = Some (plain_file 15 (Text (py ''Not a text file'')))"
  by (simp add: file_content_of_def read_file_def read_all_def open_r_def eval_defs
      world_sentinel_def archive_defs endswith_def fenced_def)

text \<open>
  C10, amended. For a readable text file that is not large and whose whole content is the
  sentinel, the assembler takes the branch of the sentinel and classifies the file, which
  raises nothing. When the file is classified as an archive, the block is the fenced
  rendering of the archive reader if expansion is enabled, and the marker of a skipped
  archive if not. When the file is not classified, the block is the fenced sentinel, which
  is the fenced content of the file.
\<close>

theorem sentinel_text_file_block:
  assumes "lookup w (Named file) = Some f" "faccess f = None"
    and "fcontent f = Text (py ''Not a text file'')"
    and "\<not> file_is_large w (Named file) (LARGE_SIZE_FILE cfg)"
  shows "(inspect_archive w file = Inr None \<longrightarrow>
            file_content_of cfg w file = Inr (fenced (py ''Not a text file''), w))
       \<and> (\<forall>t. inspect_archive w file = Inr (Some t) \<and> \<not> READ_COMPRESSED_FILES cfg \<longrightarrow>
            file_content_of cfg w file = Inr (py ''`Archive skipped`\<newline>'', w))
       \<and> (\<forall>t. inspect_archive w file = Inr (Some t) \<and> READ_COMPRESSED_FILES cfg \<longrightarrow>
            (\<exists>s w'. read_archive cfg w file = Inr (s, w')
                    \<and> file_content_of cfg w file = Inr (fenced s, w')))
       \<and> (\<exists>info. inspect_archive w file = Inr info)"
proof -
  have r: "read_file cfg w (Named file) False = Inr (py ''Not a text file'')"
    using assms by (rule read_file_sentinel_text)
  have 1: "inspect_archive w file = Inr None \<longrightarrow>
            file_content_of cfg w file = Inr (fenced (py ''Not a text file''), w)"
    by (simp add: file_content_of_def r fenced_def py_def)
  have 2: "\<forall>t. inspect_archive w file = Inr (Some t) \<and> \<not> READ_COMPRESSED_FILES cfg \<longrightarrow>
            file_content_of cfg w file = Inr (py ''`Archive skipped`\<newline>'', w)"
    by (simp add: file_content_of_def r)
  have 3: "\<forall>t. inspect_archive w file = Inr (Some t) \<and> READ_COMPRESSED_FILES cfg \<longrightarrow>
            (\<exists>s w'. read_archive cfg w file = Inr (s, w')
                    \<and> file_content_of cfg w file = Inr (fenced s, w'))"
  proof (intro allI impI)
    fix t
    assume a: "inspect_archive w file = Inr (Some t) \<and> READ_COMPRESSED_FILES cfg"
    then obtain s w' where "read_archive cfg w file = Inr (s, w')"
      using read_archive_returns [of w "file" "Some t" cfg] by blast
    with a show "\<exists>s w'. read_archive cfg w file = Inr (s, w')
                    \<and> file_content_of cfg w file = Inr (fenced s, w')"
      by (simp add: file_content_of_def r)
  qed
  have 4: "\<exists>info. inspect_archive w file = Inr info"
    using inspect_archive_present [of w "file" f] assms(1,2,3) by (simp add: lookup_def)
  from 1 2 3 4 show ?thesis by (intro conjI)
qed

theorem sentinel_text_file_block_witness:
  "lookup world_sentinel (Named (py ''note.txt'')) = Some (plain_file 15 (Text (py ''Not a text file'')))
   \<and> lookup world_sentinel (Named (py ''note.gz'')) = Some (plain_file 15 (Text (py ''Not a text file'')))
   \<and> \<not> file_is_large world_sentinel (Named (py ''note.txt'')) (LARGE_SIZE_FILE default_config)
   \<and> \<not> file_is_large world_sentinel (Named (py ''note.gz'')) (LARGE_SIZE_FILE default_config)
   \<and> inspect_archive world_sentinel (py ''note.txt'') = Inr None
   \<and> file_content_of default_config world_sentinel (py ''note.txt'')
       = Inr (fenced (py ''Not a text file''), world_sentinel)
   \<and> inspect_archive world_sentinel (py ''note.gz'') = Inr (Some (py ''gz''))
   \<and> READ_COMPRESSED_FILES default_config
   \<and> file_content_of default_config world_sentinel (py ''note.gz'')
       = Inr (fenced (py ''## Archive content of note.gz (gz)\<newline>[Error reading archive: Not a gzipped file]''),
              world_sentinel)
   \<and> \<not> READ_COMPRESSED_FILES (default_config\<lparr>READ_COMPRESSED_FILES := False\<rparr>)
   \<and> file_content_of (default_config\<lparr>READ_COMPRESSED_FILES := False\<rparr>) world_sentinel (py ''note.gz'')
       = Inr (py ''`Archive skipped`\<newline>'', world_sentinel)"
proof -
  let ?f = "plain_file 15 (Text (py ''Not a text file''))"
  let ?off = "default_config\<lparr>READ_COMPRESSED_FILES := False\<rparr>"
  have l1: "lookup world_sentinel (Named (py ''note.txt'')) = Some ?f"
    by (simp add: lookup_def world_sentinel_def py_def)
  have l2: "lookup world_sentinel (Named (py ''note.gz'')) = Some ?f"
    by (simp add: lookup_def world_sentinel_def py_def)
  have a: "faccess ?f = None" and c: "fcontent ?f = Text (py ''Not a text file'')"
    by (simp_all add: plain_file_def)
  have s1: "\<not> file_is_large world_sentinel (Named (py ''note.txt'')) (LARGE_SIZE_FILE cfg)"
    if "LARGE_SIZE_FILE cfg = 10" for cfg
    using that by (simp add: eval_defs world_sentinel_def)
  have s2: "\<not> file_is_large world_sentinel (Named (py ''note.gz'')) (LARGE_SIZE_FILE cfg)"
    if "LARGE_SIZE_FILE cfg = 10" for cfg
    using that by (simp add: eval_defs world_sentinel_def)
  have d: "LARGE_SIZE_FILE default_config = 10" "LARGE_SIZE_FILE ?off = 10"
    by (simp_all add: default_config_def)
  have i1: "inspect_archive world_sentinel (py ''note.txt'') = Inr None"
    by (simp add: archive_defs world_sentinel_def plain_file_def endswith_def py_def)
  have i2: "inspect_archive world_sentinel (py ''note.gz'') = Inr (Some (py ''gz''))"
    by (simp add: archive_defs world_sentinel_def plain_file_def endswith_def py_def)
  have r: "READ_COMPRESSED_FILES default_config" "\<not> READ_COMPRESSED_FILES ?off"
    by (simp_all add: default_config_def)
  have ra: "read_archive default_config world_sentinel (py ''note.gz'')
              = Inr (py ''## Archive content of note.gz (gz)\<newline>[Error reading archive: Not a gzipped file]'',
                     world_sentinel)"
    by (simp add: archive_defs world_sentinel_def plain_file_def endswith_def py_def)
  note t1 = sentinel_text_file_block [OF l1 a c s1 [OF d(1)]]
  note t2 = sentinel_text_file_block [OF l2 a c s2 [OF d(1)]]
  note t3 = sentinel_text_file_block [OF l2 a c s2 [OF d(2)]]
  have b1: "file_content_of default_config world_sentinel (py ''note.txt'')
       = Inr (fenced (py ''Not a text file''), world_sentinel)"
    using t1 i1 by blast
  have b2: "file_content_of default_config world_sentinel (py ''note.gz'')
       = Inr (fenced (py ''## Archive content of note.gz (gz)\<newline>[Error reading archive: Not a gzipped file]''),
              world_sentinel)"
    using t2 i2 r(1) ra by auto
  have b3: "file_content_of ?off world_sentinel (py ''note.gz'')
       = Inr (py ''`Archive skipped`\<newline>'', world_sentinel)"
    using t3 i2 r(2) by blast
  from l1 l2 s1 [OF d(1)] s2 [OF d(1)] i1 b1 i2 r(1) b2 r(2) b3 show ?thesis
    by (intro conjI)
qed

end
